theory Spec2Isabelle
  imports Complex_Main "HOL-Library.Multiset" "HOL-Library.AList"
begin

section \<open>The evaluator of rootless against rootful container metrics\<close>

text \<open>
  A shallow embedding of \<^verbatim>\<open>src/evaluate_metrics.py\<close>. Exceptions are values of the type
  \<open>error\<close>, and a function that can raise returns \<open>error + 'a\<close> with \<open>Inl\<close> the
  exception. Python's \<^verbatim>\<open>float\<close> is the IEEE 754 double: the type \<open>pyfloat\<close> below has
  the finite values, the two infinities and NaN, and every arithmetic operation rounds
  its exact result to the nearest double, ties to even, with gradual underflow and
  overflow to infinity.
\<close>

subsection \<open>Exceptions\<close>

datatype error =
  ZeroDivisionError
  | KeyError string
  | ValueError
  | HTTPError
  | RuntimeError
  | OverflowError
  | TypeError

subsection \<open>Floats\<close>

text \<open>
  A finite float is given by its value, a real number; \<open>0.0\<close> and \<open>-0.0\<close> are the one
  value \<open>Fin 0\<close>, as they are for every comparison of Python: the sign of a zero
  changes no value that the code computes other than the sign of a zero, since a
  division by either zero raises. A finite value that arithmetic
  produces is a double because \<open>fround\<close> made it; a value that comes from outside (a
  sample, a weight) is a double when \<open>is_double\<close> holds for it.
\<close>

datatype pyfloat = Fin real | PInf | NInf | NaN

definition round_even :: "real \<Rightarrow> int" where
  "round_even x =
    (let f = \<lfloor>x\<rfloor>; d = x - of_int f
     in if d < 1 / 2 then f
        else if 1 / 2 < d then f + 1
        else if even f then f else f + 1)"

definition ulp_of :: "real \<Rightarrow> real" where
  "ulp_of x = 2 powi (max \<lfloor>log 2 \<bar>x\<bar>\<rfloor> (- 1022) - 52)"

definition huge :: real where
  "huge = 2 ^ 1024"

definition fround :: "real \<Rightarrow> pyfloat" where
  "fround x =
    (if x = 0 then Fin 0
     else (let y = of_int (round_even (x / ulp_of x)) * ulp_of x
           in if huge \<le> \<bar>y\<bar> then (if 0 < x then PInf else NInf) else Fin y))"

definition is_double :: "real \<Rightarrow> bool" where
  "is_double x \<longleftrightarrow> fround x = Fin x"

fun fneg :: "pyfloat \<Rightarrow> pyfloat" where
  "fneg (Fin x) = Fin (- x)"
| "fneg PInf = NInf"
| "fneg NInf = PInf"
| "fneg NaN = NaN"

fun fabs :: "pyfloat \<Rightarrow> pyfloat" where
  "fabs (Fin x) = Fin \<bar>x\<bar>"
| "fabs PInf = PInf"
| "fabs NInf = PInf"
| "fabs NaN = NaN"

fun fadd :: "pyfloat \<Rightarrow> pyfloat \<Rightarrow> pyfloat" where
  "fadd (Fin x) (Fin y) = fround (x + y)"
| "fadd NaN b = NaN"
| "fadd a NaN = NaN"
| "fadd PInf NInf = NaN"
| "fadd NInf PInf = NaN"
| "fadd PInf b = PInf"
| "fadd a PInf = PInf"
| "fadd NInf b = NInf"
| "fadd a NInf = NInf"

definition fsub :: "pyfloat \<Rightarrow> pyfloat \<Rightarrow> pyfloat" where
  "fsub a b = fadd a (fneg b)"

fun fmul :: "pyfloat \<Rightarrow> pyfloat \<Rightarrow> pyfloat" where
  "fmul (Fin x) (Fin y) = fround (x * y)"
| "fmul NaN b = NaN"
| "fmul a NaN = NaN"
| "fmul PInf (Fin y) = (if y = 0 then NaN else if 0 < y then PInf else NInf)"
| "fmul NInf (Fin y) = (if y = 0 then NaN else if 0 < y then NInf else PInf)"
| "fmul (Fin x) PInf = (if x = 0 then NaN else if 0 < x then PInf else NInf)"
| "fmul (Fin x) NInf = (if x = 0 then NaN else if 0 < x then NInf else PInf)"
| "fmul PInf PInf = PInf"
| "fmul PInf NInf = NInf"
| "fmul NInf PInf = NInf"
| "fmul NInf NInf = PInf"

fun fdiv :: "pyfloat \<Rightarrow> pyfloat \<Rightarrow> error + pyfloat" where
  "fdiv a (Fin y) =
    (if y = 0 then Inl ZeroDivisionError
     else Inr (case a of
                 Fin x \<Rightarrow> fround (x / y)
               | PInf \<Rightarrow> if 0 < y then PInf else NInf
               | NInf \<Rightarrow> if 0 < y then NInf else PInf
               | NaN \<Rightarrow> NaN))"
| "fdiv a NaN = Inr NaN"
| "fdiv (Fin x) b = Inr (Fin 0)"
| "fdiv a b = Inr NaN"

fun flt :: "pyfloat \<Rightarrow> pyfloat \<Rightarrow> bool" where
  "flt (Fin x) (Fin y) \<longleftrightarrow> x < y"
| "flt NaN b \<longleftrightarrow> False"
| "flt a NaN \<longleftrightarrow> False"
| "flt a NInf \<longleftrightarrow> False"
| "flt PInf b \<longleftrightarrow> False"
| "flt NInf b \<longleftrightarrow> True"
| "flt a PInf \<longleftrightarrow> True"

fun feq :: "pyfloat \<Rightarrow> pyfloat \<Rightarrow> bool" where
  "feq (Fin x) (Fin y) \<longleftrightarrow> x = y"
| "feq PInf PInf \<longleftrightarrow> True"
| "feq NInf NInf \<longleftrightarrow> True"
| "feq a b \<longleftrightarrow> False"

definition fle :: "pyfloat \<Rightarrow> pyfloat \<Rightarrow> bool" where
  "fle a b \<longleftrightarrow> flt a b \<or> feq a b"

definition fgt :: "pyfloat \<Rightarrow> pyfloat \<Rightarrow> bool" where
  "fgt a b \<longleftrightarrow> flt b a"

definition fge :: "pyfloat \<Rightarrow> pyfloat \<Rightarrow> bool" where
  "fge a b \<longleftrightarrow> fle b a"

definition py_min2 :: "pyfloat \<Rightarrow> pyfloat \<Rightarrow> pyfloat" where
  "py_min2 a b = (if flt b a then b else a)"

definition py_max2 :: "pyfloat \<Rightarrow> pyfloat \<Rightarrow> pyfloat" where
  "py_max2 a b = (if fgt b a then b else a)"

subsection \<open>The score of one metric (\<^verbatim>\<open>compute_score\<close>, lines 45 to 67)\<close>

text \<open>
  The difference \<^verbatim>\<open>rootless - rootful\<close> and the halved denominator are computed before
  the division, and the division raises when the halved denominator is zero, which the
  test \<^verbatim>\<open>denom == 0\<close> on the denominator itself does not exclude. Every direction other
  than \<^verbatim>\<open>"lower"\<close> is treated as \<^verbatim>\<open>"higher"\<close>.
\<close>

definition compute_score ::
  "pyfloat \<Rightarrow> pyfloat \<Rightarrow> pyfloat \<Rightarrow> string \<Rightarrow> error + (pyfloat \<times> pyfloat)" where
  "compute_score rootless rootful w direction =
    (let denom = fadd (fabs rootless) (fabs rootful) in
     case (if feq denom (Fin 0) then Inr (Fin 0)
           else (case fdiv denom (Fin 2) of
                   Inl e \<Rightarrow> Inl e
                 | Inr half \<Rightarrow>
                    (case fdiv (fsub rootless rootful) half of
                       Inl e \<Rightarrow> Inl e
                     | Inr rel \<Rightarrow> Inr (py_max2 (Fin (- 1)) (py_min2 (Fin 1) rel))))) of
       Inl e \<Rightarrow> Inl e
     | Inr rel \<Rightarrow>
         (let rel' = (if direction = ''lower'' then fneg rel else rel);
              score = fadd (Fin 50) (fmul rel' (Fin 50));
              score' = py_max2 (Fin 0) (py_min2 (Fin 100) score)
          in Inr (rel', fmul score' w)))"

subsection \<open>The backend query (\<^verbatim>\<open>prom_query\<close>, lines 22 to 42)\<close>

text \<open>
  The HTTP exchange is the environment. A reply is either a failed request
  (\<^verbatim>\<open>raise_for_status\<close> raises) or a JSON body, of which the function reads the
  \<^verbatim>\<open>status\<close> field and the \<^verbatim>\<open>result\<close> list; each sample of the list is represented by
  what \<^verbatim>\<open>float(value)\<close> makes of its value: \<open>Some x\<close> for a float \<open>x\<close> (which can be an
  infinity or NaN, since \<^verbatim>\<open>float\<close> accepts \<^verbatim>\<open>"+Inf"\<close> and \<^verbatim>\<open>"NaN"\<close>), or \<open>None\<close> when the
  conversion raises. A backend maps the text of a query to its reply; it is fixed for the duration
  of one repetition.
\<close>

datatype prom_reply =
  HTTP_failure
  | Body string "pyfloat option list"

type_synonym backend = "string \<Rightarrow> prom_reply"

definition prom_query :: "backend \<Rightarrow> string \<Rightarrow> error + (pyfloat option \<times> bool)" where
  "prom_query prom query =
    (case prom query of
       HTTP_failure \<Rightarrow> Inl HTTPError
     | Body status result \<Rightarrow>
         if status \<noteq> ''success'' then Inl RuntimeError
         else (case result of
                 [] \<Rightarrow> Inr (None, False)
               | value # _ \<Rightarrow>
                   (case value of
                      Some x \<Rightarrow> Inr (Some x, True)
                    | None \<Rightarrow> Inr (None, False))))"

subsection \<open>The container matcher (\<^verbatim>\<open>with_container\<close>, lines 94 to 104)\<close>

text \<open>
  \<^verbatim>\<open>base.rsplit(sep, 1)\<close> for a separator of one character: the text before and the
  text after the last separator, or the whole text alone when it has none.
\<close>

definition rsplit1 :: "char \<Rightarrow> string \<Rightarrow> string list" where
  "rsplit1 sep s =
    (if sep \<in> set s
     then [rev (tl (dropWhile (\<lambda>c. c \<noteq> sep) (rev s))), rev (takeWhile (\<lambda>c. c \<noteq> sep) (rev s))]
     else [s])"

text \<open>
  The assignment \<^verbatim>\<open>head, tail = base.rsplit('}', 1)\<close> raises \<^verbatim>\<open>ValueError\<close> when the list
  has one element, which happens for a base with an opening and no closing brace.
\<close>

definition with_container :: "string \<Rightarrow> string \<Rightarrow> error + string" where
  \<open>with_container base container =
    (if CHR ''{'' \<in> set base
     then (case rsplit1 (CHR ''}'') base of
             [head, tail] \<Rightarrow> Inr (head @ '',container="'' @ container @ ''"}'' @ tail)
           | _ \<Rightarrow> Inl ValueError)
     else Inr (base @ ''{container="'' @ container @ ''"}''))\<close>

text \<open>The expression \<^verbatim>\<open>prom_query(prom_url, with_container(q, name))\<close> of lines 116 and 117.\<close>

definition fetch :: "backend \<Rightarrow> string \<Rightarrow> string \<Rightarrow> error + (pyfloat option \<times> bool)" where
  "fetch prom q container =
    (case with_container q container of
       Inl e \<Rightarrow> Inl e
     | Inr q' \<Rightarrow> prom_query prom q')"

subsection \<open>Configuration and results\<close>

text \<open>
  One entry of \<^verbatim>\<open>cfg["metrics"]\<close>. The key \<^verbatim>\<open>query\<close> is read with \<^verbatim>\<open>spec["query"]\<close> and
  raises \<^verbatim>\<open>KeyError\<close> when absent; \<^verbatim>\<open>weight\<close> and \<^verbatim>\<open>direction\<close> are read with
  \<^verbatim>\<open>spec.get\<close> and have defaults. The values are taken to have the JSON types the code
  expects (a number for the weight, strings for the other two); the weight is the float
  that \<^verbatim>\<open>float(...)\<close> makes of the number.
\<close>

record metric_spec =
  query :: "string option"
  weight :: "pyfloat option"
  direction :: "string option"

text \<open>Lines 113 and 114.\<close>

definition weight_of :: "metric_spec \<Rightarrow> pyfloat" where
  "weight_of spec = (case weight spec of None \<Rightarrow> Fin 0 | Some w \<Rightarrow> w)"

definition direction_of :: "metric_spec \<Rightarrow> string" where
  "direction_of spec = (case direction spec of None \<Rightarrow> ''higher'' | Some d \<Rightarrow> d)"

text \<open>
  The dictionary stored in \<^verbatim>\<open>rep_metrics[name]\<close>: the keys \<^verbatim>\<open>direction\<close> and \<^verbatim>\<open>weight\<close>
  are the fields \<open>m_direction\<close> and \<open>m_weight\<close>, and a key that one of the two shapes of
  the dictionary lacks is \<open>None\<close>.
\<close>

record metric_result =
  rootless_value :: "pyfloat option"
  rootful_value :: "pyfloat option"
  m_direction :: string
  m_weight :: pyfloat
  included :: bool
  reason :: "string option"
  normalized_delta :: "pyfloat option"
  weighted_score_contrib :: "pyfloat option"

text \<open>The variables of the loop over the metrics: a dictionary in insertion order and two sums.\<close>

record loop_state =
  rep_metrics :: "(string \<times> metric_result) list"
  total_weight :: pyfloat
  weighted_sum :: pyfloat

text \<open>One entry of \<^verbatim>\<open>runs\<close>.\<close>

record run =
  rep :: nat
  timestamp :: int
  metrics :: "(string \<times> metric_result) list"
  weighted_score :: pyfloat
  verdict :: string
  effective_weight :: pyfloat

subsection \<open>One metric of one repetition (the loop body, lines 111 to 142)\<close>

text \<open>
  \<^verbatim>\<open>v or 0.0\<close>: the value, unless it is \<^verbatim>\<open>None\<close> or a zero. NaN and the infinities are
  true.
\<close>

definition or_zero :: "pyfloat option \<Rightarrow> pyfloat" where
  "or_zero v = (case v of None \<Rightarrow> Fin 0 | Some x \<Rightarrow> if feq x (Fin 0) then Fin 0 else x)"

definition metric_step ::
  "backend \<Rightarrow> string \<Rightarrow> string \<Rightarrow> string \<Rightarrow> metric_spec \<Rightarrow> loop_state \<Rightarrow> error + loop_state" where
  "metric_step prom rootless_name rootful_name name spec st =
    (case query spec of
       None \<Rightarrow> Inl (KeyError ''query'')
     | Some q \<Rightarrow>
        (case fetch prom q rootless_name of
           Inl e \<Rightarrow> Inl e
         | Inr (rl_val, rl_ok) \<Rightarrow>
            (case fetch prom q rootful_name of
               Inl e \<Rightarrow> Inl e
             | Inr (rf_val, rf_ok) \<Rightarrow>
                if \<not> (rl_ok \<and> rf_ok)
                then Inr (st\<lparr>rep_metrics := AList.update name
                       \<lparr>rootless_value = rl_val, rootful_value = rf_val,
                        m_direction = direction_of spec, m_weight = weight_of spec,
                        included = False, reason = Some ''missing series'',
                        normalized_delta = None, weighted_score_contrib = None\<rparr>
                       (rep_metrics st)\<rparr>)
                else
                  (case compute_score (or_zero rl_val) (or_zero rf_val)
                          (weight_of spec) (direction_of spec) of
                     Inl e \<Rightarrow> Inl e
                   | Inr (rel, weighted) \<Rightarrow>
                       Inr \<lparr>rep_metrics = AList.update name
                              \<lparr>rootless_value = rl_val, rootful_value = rf_val,
                               m_direction = direction_of spec, m_weight = weight_of spec,
                               included = True, reason = None,
                               normalized_delta = Some rel,
                               weighted_score_contrib = Some weighted\<rparr>
                              (rep_metrics st),
                            total_weight = fadd (total_weight st) (weight_of spec),
                            weighted_sum = fadd (weighted_sum st) weighted\<rparr>))))"

text \<open>The loop over \<^verbatim>\<open>metrics.items()\<close>; the first exception ends it.\<close>

fun metrics_loop ::
  "backend \<Rightarrow> string \<Rightarrow> string \<Rightarrow> (string \<times> metric_spec) list \<Rightarrow> loop_state \<Rightarrow> error + loop_state" where
  "metrics_loop prom rootless_name rootful_name [] st = Inr st"
| "metrics_loop prom rootless_name rootful_name ((name, spec) # rest) st =
    (case metric_step prom rootless_name rootful_name name spec st of
       Inl e \<Rightarrow> Inl e
     | Inr st' \<Rightarrow> metrics_loop prom rootless_name rootful_name rest st')"

subsection \<open>The score and the verdict of a repetition (lines 144 to 169)\<close>

definition aggregate_score :: "pyfloat \<Rightarrow> pyfloat \<Rightarrow> error + pyfloat" where
  "aggregate_score tw ws =
    (if fgt tw (Fin 0) then fdiv ws tw else Inr (Fin 50))"

text \<open>\<^verbatim>\<open>thresholds[k]\<close> on the dictionary of the configuration.\<close>

definition getitem :: "(string \<rightharpoonup> 'a) \<Rightarrow> string \<Rightarrow> error + 'a" where
  "getitem d k = (case d k of None \<Rightarrow> Inl (KeyError k) | Some v \<Rightarrow> Inr v)"

definition verdict_of :: "(string \<rightharpoonup> real) \<Rightarrow> real \<Rightarrow> error + string" where
  "verdict_of thresholds score =
    (case getitem thresholds ''strong_rootless'' of
       Inl e \<Rightarrow> Inl e
     | Inr t1 \<Rightarrow>
        if score \<ge> t1 then Inr ''strong prefer rootless''
        else (case getitem thresholds ''mild_rootless'' of
           Inl e \<Rightarrow> Inl e
         | Inr t2 \<Rightarrow>
            if score \<ge> t2 then Inr ''mild prefer rootless''
            else (case getitem thresholds ''strong_rootful'' of
               Inl e \<Rightarrow> Inl e
             | Inr t3 \<Rightarrow>
                if score \<le> t3 then Inr ''strong prefer rootful''
                else (case getitem thresholds ''mild_rootful'' of
                   Inl e \<Rightarrow> Inl e
                 | Inr t4 \<Rightarrow>
                    if score \<le> t4 then Inr ''mild prefer rootful''
                    else Inr ''inconclusive''))))"

text \<open>
  The dictionary \<^verbatim>\<open>cfg["thresholds"]\<close> that has exactly the four keys the code reads.
\<close>

definition threshold_set :: "real \<Rightarrow> real \<Rightarrow> real \<Rightarrow> real \<Rightarrow> (string \<rightharpoonup> real)" where
  "threshold_set srl mrl mrf srf =
    [''strong_rootless'' \<mapsto> srl, ''mild_rootless'' \<mapsto> mrl,
     ''mild_rootful'' \<mapsto> mrf, ''strong_rootful'' \<mapsto> srf]"


text \<open>
  Lines 151 to 160 at the float \<^verbatim>\<open>weighted_score\<close>: \<open>verdict_of\<close> at a finite score. At
  an infinite score the first comparison that holds is fixed, and at NaN every
  comparison is false; the thresholds are looked up as far as the chain goes.
\<close>

definition classify :: "(string \<rightharpoonup> real) \<Rightarrow> pyfloat \<Rightarrow> error + string" where
  "classify thresholds score =
    (case score of
       Fin x \<Rightarrow> verdict_of thresholds x
     | PInf \<Rightarrow>
        (case getitem thresholds ''strong_rootless'' of
           Inl e \<Rightarrow> Inl e
         | Inr t1 \<Rightarrow> Inr ''strong prefer rootless'')
     | NInf \<Rightarrow>
        (case getitem thresholds ''strong_rootless'' of
           Inl e \<Rightarrow> Inl e
         | Inr t1 \<Rightarrow>
            (case getitem thresholds ''mild_rootless'' of
               Inl e \<Rightarrow> Inl e
             | Inr t2 \<Rightarrow>
                (case getitem thresholds ''strong_rootful'' of
                   Inl e \<Rightarrow> Inl e
                 | Inr t3 \<Rightarrow> Inr ''strong prefer rootful'')))
     | NaN \<Rightarrow>
        (case getitem thresholds ''strong_rootless'' of
           Inl e \<Rightarrow> Inl e
         | Inr t1 \<Rightarrow>
            (case getitem thresholds ''mild_rootless'' of
               Inl e \<Rightarrow> Inl e
             | Inr t2 \<Rightarrow>
                (case getitem thresholds ''strong_rootful'' of
                   Inl e \<Rightarrow> Inl e
                 | Inr t3 \<Rightarrow>
                    (case getitem thresholds ''mild_rootful'' of
                       Inl e \<Rightarrow> Inl e
                     | Inr t4 \<Rightarrow> Inr ''inconclusive'')))))"

text \<open>
  The body of the loop over the repetitions, up to \<^verbatim>\<open>runs.append\<close>; \<open>now\<close> is the
  value of \<^verbatim>\<open>int(time.time())\<close>.
\<close>

definition repetition ::
  "backend \<Rightarrow> string \<Rightarrow> string \<Rightarrow> (string \<times> metric_spec) list \<Rightarrow> (string \<rightharpoonup> real) \<Rightarrow>
     nat \<Rightarrow> int \<Rightarrow> error + run" where
  "repetition prom rootless_name rootful_name metrics_cfg thresholds rep_index now =
    (case metrics_loop prom rootless_name rootful_name metrics_cfg
            \<lparr>rep_metrics = [], total_weight = Fin 0, weighted_sum = Fin 0\<rparr> of
       Inl e \<Rightarrow> Inl e
     | Inr st \<Rightarrow>
        (case aggregate_score (total_weight st) (weighted_sum st) of
           Inl e \<Rightarrow> Inl e
         | Inr ws \<Rightarrow>
            (case classify thresholds ws of
               Inl e \<Rightarrow> Inl e
             | Inr v \<Rightarrow>
                 Inr \<lparr>rep = rep_index + 1, timestamp = now, metrics = rep_metrics st,
                      weighted_score = ws, verdict = v,
                      effective_weight = total_weight st\<rparr>)))"

text \<open>
  The loop \<^verbatim>\<open>for rep in range(args.reps)\<close>: repetition \<open>i\<close> queries the backend as it
  is at that time, \<open>proms i\<close>, and reads the clock, \<open>clock i\<close>. The pause between two
  repetitions has no effect on the values.
\<close>

fun run_reps ::
  "(nat \<Rightarrow> backend) \<Rightarrow> (nat \<Rightarrow> int) \<Rightarrow> string \<Rightarrow> string \<Rightarrow> (string \<times> metric_spec) list \<Rightarrow>
     (string \<rightharpoonup> real) \<Rightarrow> nat list \<Rightarrow> run list \<Rightarrow> error + run list" where
  "run_reps proms clock rootless_name rootful_name metrics_cfg thresholds [] runs = Inr runs"
| "run_reps proms clock rootless_name rootful_name metrics_cfg thresholds (i # is) runs =
    (case repetition (proms i) rootless_name rootful_name metrics_cfg thresholds i (clock i) of
       Inl e \<Rightarrow> Inl e
     | Inr r \<Rightarrow>
         run_reps proms clock rootless_name rootful_name metrics_cfg thresholds is (runs @ [r]))"

subsection \<open>The summary over the repetitions (lines 174 to 190)\<close>

text \<open>
  \<^verbatim>\<open>min\<close> and \<^verbatim>\<open>max\<close> of a list keep the first element until a smaller (larger) one
  comes, and raise on the empty list.
\<close>

fun py_min :: "pyfloat list \<Rightarrow> error + pyfloat" where
  "py_min [] = Inl ValueError"
| "py_min (x # xs) = Inr (foldl py_min2 x xs)"

fun py_max :: "pyfloat list \<Rightarrow> error + pyfloat" where
  "py_max [] = Inl ValueError"
| "py_max (x # xs) = Inr (foldl py_max2 x xs)"

text \<open>
  The power operator \<^verbatim>\<open>**\<close> of floats, for an exponent that is positive and not an odd
  integer, as \<open>2\<close> and \<open>0.5\<close> are, the two exponents of the program. The interpreter
  settles NaN, the infinities, the zeros and \<open>1\<close> itself; a negative base with an
  exponent that is not an integer has a complex result, which the report cannot hold
  (\<^verbatim>\<open>json.dump\<close> raises \<^verbatim>\<open>TypeError\<close>); every other case is the \<^verbatim>\<open>pow\<close> of the C library
  at the absolute value of the base, and a result out of range raises
  \<^verbatim>\<open>OverflowError\<close>. The C library is the parameter \<open>libm_pow\<close>: how it rounds is not
  fixed by the language.
\<close>

definition float_pow :: "(real \<Rightarrow> real \<Rightarrow> pyfloat) \<Rightarrow> pyfloat \<Rightarrow> real \<Rightarrow> error + pyfloat" where
  "float_pow libm_pow v w =
    (case v of
       NaN \<Rightarrow> Inr NaN
     | PInf \<Rightarrow> Inr PInf
     | NInf \<Rightarrow> Inr PInf
     | Fin x \<Rightarrow>
         if x = 0 then Inr (Fin 0)
         else if x < 0 \<and> w \<noteq> of_int \<lfloor>w\<rfloor> then Inl TypeError
         else if \<bar>x\<bar> = 1 then Inr (Fin 1)
         else (case libm_pow \<bar>x\<bar> w of
                 Fin r \<Rightarrow> Inr (Fin r)
               | NaN \<Rightarrow> Inr NaN
               | _ \<Rightarrow> Inl OverflowError))"


text \<open>The generator \<^verbatim>\<open>(s - mean_score) ** 2 for s in scores\<close>, consumed by \<^verbatim>\<open>sum\<close>.\<close>

fun squared_deviations ::
  "(real \<Rightarrow> real \<Rightarrow> pyfloat) \<Rightarrow> pyfloat \<Rightarrow> pyfloat list \<Rightarrow> error + pyfloat list" where
  "squared_deviations libm_pow mean_score [] = Inr []"
| "squared_deviations libm_pow mean_score (s # scores) =
    (case float_pow libm_pow (fsub s mean_score) 2 of
       Inl e \<Rightarrow> Inl e
     | Inr q \<Rightarrow>
        (case squared_deviations libm_pow mean_score scores of
           Inl e \<Rightarrow> Inl e
         | Inr qs \<Rightarrow> Inr (q # qs)))"

record summary =
  rootless_target :: string
  rootful_target :: string
  repetitions :: int
  mean_weighted_score :: pyfloat
  stddev_weighted_score :: pyfloat
  min_weighted_score :: pyfloat
  max_weighted_score :: pyfloat
  thresholds_used :: "string \<rightharpoonup> real"
  final_verdict :: string

text \<open>
  Lines 174 to 190. The count \<^verbatim>\<open>len(scores)\<close> is an integer, which the division
  converts to the nearest float.
\<close>

definition summarize ::
  "(pyfloat list \<Rightarrow> pyfloat) \<Rightarrow> (real \<Rightarrow> real \<Rightarrow> pyfloat) \<Rightarrow>
     string \<Rightarrow> string \<Rightarrow> int \<Rightarrow> (string \<rightharpoonup> real) \<Rightarrow> run list \<Rightarrow> error + summary" where
  "summarize py_sum libm_pow rootless_name rootful_name reps thresholds runs =
    (let scores = map weighted_score runs in
     case (if scores \<noteq> [] then fdiv (py_sum scores) (fround (real (length scores)))
           else Inr (Fin 50)) of
       Inl e \<Rightarrow> Inl e
     | Inr mean_score \<Rightarrow>
        (case (if scores \<noteq> []
               then (case squared_deviations libm_pow mean_score scores of
                       Inl e \<Rightarrow> Inl e
                     | Inr qs \<Rightarrow> fdiv (py_sum qs) (fround (real (length scores))))
               else Inr (Fin 0)) of
           Inl e \<Rightarrow> Inl e
         | Inr variance \<Rightarrow>
            (case float_pow libm_pow variance (1 / 2) of
               Inl e \<Rightarrow> Inl e
             | Inr stddev \<Rightarrow>
                (case (if scores \<noteq> [] then py_min scores else Inr (Fin 50)) of
                   Inl e \<Rightarrow> Inl e
                 | Inr lo \<Rightarrow>
                    (case (if scores \<noteq> [] then py_max scores else Inr (Fin 50)) of
                       Inl e \<Rightarrow> Inl e
                     | Inr hi \<Rightarrow>
                         Inr \<lparr>rootless_target = rootless_name, rootful_target = rootful_name,
                              repetitions = reps,
                              mean_weighted_score = mean_score,
                              stddev_weighted_score = stddev,
                              min_weighted_score = lo, max_weighted_score = hi,
                              thresholds_used = thresholds,
                              final_verdict =
                                (if runs \<noteq> [] then verdict (last runs)
                                 else ''inconclusive'')\<rparr>)))))"

text \<open>The repetitions followed by the summary: the \<^verbatim>\<open>summary\<close> and \<^verbatim>\<open>runs\<close> of the report.\<close>

definition evaluate ::
  "(pyfloat list \<Rightarrow> pyfloat) \<Rightarrow> (real \<Rightarrow> real \<Rightarrow> pyfloat) \<Rightarrow>
     (nat \<Rightarrow> backend) \<Rightarrow> (nat \<Rightarrow> int) \<Rightarrow> string \<Rightarrow> string \<Rightarrow> (string \<times> metric_spec) list \<Rightarrow>
     (string \<rightharpoonup> real) \<Rightarrow> int \<Rightarrow> error + (summary \<times> run list)" where
  "evaluate py_sum libm_pow proms clock rootless_name rootful_name metrics_cfg thresholds reps =
    (case run_reps proms clock rootless_name rootful_name metrics_cfg thresholds
            [0 ..< nat reps] [] of
       Inl e \<Rightarrow> Inl e
     | Inr runs \<Rightarrow>
        (case summarize py_sum libm_pow rootless_name rootful_name reps thresholds runs of
           Inl e \<Rightarrow> Inl e
         | Inr s \<Rightarrow> Inr (s, runs)))"

subsection \<open>Auxiliary notions for the properties\<close>

text \<open>
  What the loop body computes for one metric, apart from the state: the dictionary it
  stores and, for a metric that is scored, the weight and the contribution it adds to
  \<^verbatim>\<open>total_weight\<close> and to \<^verbatim>\<open>weighted_sum\<close>. The lemma \<open>metric_step_outcome\<close> below shows
  that \<open>metric_step\<close> is this outcome applied to the state.
\<close>

definition metric_outcome ::
  "backend \<Rightarrow> string \<Rightarrow> string \<Rightarrow> metric_spec \<Rightarrow> error + (metric_result \<times> (pyfloat \<times> pyfloat) option)" where
  "metric_outcome prom rootless_name rootful_name spec =
    (case query spec of
       None \<Rightarrow> Inl (KeyError ''query'')
     | Some q \<Rightarrow>
        (case fetch prom q rootless_name of
           Inl e \<Rightarrow> Inl e
         | Inr (rl_val, rl_ok) \<Rightarrow>
            (case fetch prom q rootful_name of
               Inl e \<Rightarrow> Inl e
             | Inr (rf_val, rf_ok) \<Rightarrow>
                if \<not> (rl_ok \<and> rf_ok)
                then Inr (\<lparr>rootless_value = rl_val, rootful_value = rf_val,
                        m_direction = direction_of spec, m_weight = weight_of spec,
                        included = False, reason = Some ''missing series'',
                        normalized_delta = None, weighted_score_contrib = None\<rparr>, None)
                else
                  (case compute_score (or_zero rl_val) (or_zero rf_val)
                          (weight_of spec) (direction_of spec) of
                     Inl e \<Rightarrow> Inl e
                   | Inr (rel, weighted) \<Rightarrow>
                       Inr (\<lparr>rootless_value = rl_val, rootful_value = rf_val,
                               m_direction = direction_of spec, m_weight = weight_of spec,
                               included = True, reason = None,
                               normalized_delta = Some rel,
                               weighted_score_contrib = Some weighted\<rparr>,
                            Some (weight_of spec, weighted))))))"

text \<open>Both queries of a metric return and at least one of them reports \<^verbatim>\<open>ok = False\<close>.\<close>

definition series_missing :: "backend \<Rightarrow> string \<Rightarrow> string \<Rightarrow> metric_spec \<Rightarrow> bool" where
  "series_missing prom rootless_name rootful_name spec =
    (case query spec of
       None \<Rightarrow> False
     | Some q \<Rightarrow>
        (case fetch prom q rootless_name of
           Inl e \<Rightarrow> False
         | Inr (rl_val, rl_ok) \<Rightarrow>
            (case fetch prom q rootful_name of
               Inl e \<Rightarrow> False
             | Inr (rf_val, rf_ok) \<Rightarrow> \<not> (rl_ok \<and> rf_ok))))"

section \<open>Sample inputs\<close>

text \<open>
  A backend with a sample for each container of the metric \<^verbatim>\<open>cpu\<close> and for the rootless
  container only of the metric \<^verbatim>\<open>mem\<close>, whose query has a matcher of its own.
\<close>

definition example_prom :: backend where
  \<open>example_prom q =
    (if q = ''cpu{container="rl"}'' then Body ''success'' [Some (Fin 10)]
     else if q = ''cpu{container="rf"}'' then Body ''success'' [Some (Fin 20)]
     else if q = ''mem{job="x",container="rl"}'' then Body ''success'' [Some (Fin 100)]
     else Body ''success'' [])\<close>

definition example_metrics :: "(string \<times> metric_spec) list" where
  \<open>example_metrics =
    [(''cpu'', \<lparr>query = Some ''cpu'', weight = Some (Fin 2), direction = Some ''lower''\<rparr>),
     (''mem'', \<lparr>query = Some ''mem{job="x"}'', weight = Some (Fin 1),
        direction = Some ''higher''\<rparr>)]\<close>

text \<open>
  One metric of weight \<^verbatim>\<open>0.7111917696952796\<close> with the samples 1 and 0, which scores 100.
\<close>

definition rounding_prom :: backend where
  \<open>rounding_prom q =
    (if q = ''m{container="rl"}'' then Body ''success'' [Some (Fin 1)]
     else Body ''success'' [Some (Fin 0)])\<close>

definition rounding_metrics :: "(string \<times> metric_spec) list" where
  "rounding_metrics =
    [(''m'', \<lparr>query = Some ''m'', weight = Some (Fin (3202922988988625 / 2 ^ 52)),
        direction = None\<rparr>)]"

text \<open>
  Three metrics of the weights \<^verbatim>\<open>0.1\<close>, \<^verbatim>\<open>0.2\<close> and \<^verbatim>\<open>0.3\<close>, that is the doubles nearest
  to them, each with the samples 5 and 3, which score 75.
\<close>

definition order_prom :: backend where
  \<open>order_prom q =
    (if q = ''a{container="rl"}'' \<or> q = ''b{container="rl"}'' \<or> q = ''c{container="rl"}''
     then Body ''success'' [Some (Fin 5)]
     else Body ''success'' [Some (Fin 3)])\<close>

definition order_metrics :: "(string \<times> metric_spec) list" where
  "order_metrics =
    [(''a'', \<lparr>query = Some ''a'', weight = Some (Fin (3602879701896397 / 2 ^ 55)),
        direction = None\<rparr>),
     (''b'', \<lparr>query = Some ''b'', weight = Some (Fin (3602879701896397 / 2 ^ 54)),
        direction = None\<rparr>),
     (''c'', \<lparr>query = Some ''c'', weight = Some (Fin (5404319552844595 / 2 ^ 54)),
        direction = None\<rparr>)]"



section \<open>Rounding\<close>

text \<open>
  The rounding is computed from the exponent \<open>e\<close> of the exact value: \<open>fround_eval\<close>
  reduces \<open>fround x\<close> to the rounding of \<open>x / 2 powi (e - 52)\<close> to an integer.
\<close>

lemma round_even_of_int [simp]: "round_even (of_int n) = n"
  by (simp add: round_even_def)

lemma round_even_minus: "round_even (- x) = - round_even x"
proof (cases "x \<in> \<int>")
  case True
  then obtain n where "x = of_int n"
    by (auto elim: Ints_cases)
  then show ?thesis
    by (simp flip: of_int_minus)
next
  case False
  have "of_int \<lfloor>x\<rfloor> \<noteq> x"
    using False by (metis Ints_of_int)
  then have lo: "of_int \<lfloor>x\<rfloor> < x"
    using of_int_floor_le [of x] by linarith
  have hi: "x < of_int \<lfloor>x\<rfloor> + 1"
    by linarith
  have fl: "\<lfloor>- x\<rfloor> = - \<lfloor>x\<rfloor> - 1"
  proof (rule floor_unique)
    show "of_int (- \<lfloor>x\<rfloor> - 1) \<le> - x"
      unfolding of_int_diff of_int_minus of_int_1 using hi by linarith
    show "- x < of_int (- \<lfloor>x\<rfloor> - 1) + 1"
      unfolding of_int_diff of_int_minus of_int_1 using lo by linarith
  qed
  show ?thesis
    unfolding round_even_def Let_def fl using lo hi
    by (auto simp add: algebra_simps)
qed

lemma floor_log2_eqI:
  assumes "2 powi e \<le> \<bar>x\<bar>" and "\<bar>x\<bar> < 2 powi (e + 1)"
  shows "\<lfloor>log 2 \<bar>x\<bar>\<rfloor> = e"
proof -
  have pos: "0 < \<bar>x\<bar>"
    using assms(1) by (smt (verit) zero_less_power_int)
  have p: "(2::real) powr real_of_int k = 2 powi k" for k
    by (rule powr_real_of_int') simp_all
  have "(2::real) powr real_of_int e \<le> \<bar>x\<bar>"
    using assms(1) by (simp only: p)
  moreover have "\<bar>x\<bar> < (2::real) powr real_of_int (e + 1)"
    using assms(2) by (simp only: p)
  ultimately show ?thesis
    using floor_log_eq_powr_iff [of "\<bar>x\<bar>" 2 e] pos by simp
qed

lemma ulp_of_pos [simp]: "0 < ulp_of x"
  by (simp add: ulp_of_def)

lemma ulp_of_nonzero [simp]: "ulp_of x \<noteq> 0"
  by (simp add: ulp_of_def)

lemma ulp_of_minus [simp]: "ulp_of (- x) = ulp_of x"
  by (simp add: ulp_of_def)

lemma fround_eval:
  assumes "2 powi e \<le> \<bar>x\<bar>" and "\<bar>x\<bar> < 2 powi (e + 1)"
    and "u = 2 powi (max e (- 1022) - 52)"
    and "y = of_int (round_even (x / u)) * u"
    and "\<bar>y\<bar> < 2 ^ 1024"
  shows "fround x = Fin y"
proof -
  have "x \<noteq> 0"
    using assms(1) by (smt (verit) zero_less_power_int)
  moreover have "ulp_of x = u"
    by (simp add: ulp_of_def floor_log2_eqI [OF assms(1,2)] assms(3))
  ultimately show ?thesis
    using assms(4-5) by (simp add: fround_def huge_def Let_def)
qed

lemma round_even_nonneg: "0 \<le> x \<Longrightarrow> 0 \<le> round_even x"
  by (auto simp add: round_even_def Let_def)

lemma fround_neg: "fround (- x) = fneg (fround x)"
  by (simp add: fround_def Let_def round_even_minus)

lemma fround_nonneg:
  assumes "0 \<le> x"
  shows "fround x = PInf \<or> (\<exists>y. 0 \<le> y \<and> fround x = Fin y)"
proof (cases "x = 0")
  case True
  then show ?thesis
    by (simp add: fround_def)
next
  case False
  have "0 \<le> x / ulp_of x"
    using assms by (intro divide_nonneg_pos) simp_all
  then have "0 \<le> round_even (x / ulp_of x)"
    by (rule round_even_nonneg)
  then have "0 \<le> real_of_int (round_even (x / ulp_of x)) * ulp_of x"
    by (intro mult_nonneg_nonneg) (simp_all add: less_imp_le)
  then show ?thesis
    using False assms by (simp add: fround_def Let_def)
qed

lemma log2_bounds:
  assumes "x \<noteq> 0"
  shows "2 powi \<lfloor>log 2 \<bar>x\<bar>\<rfloor> \<le> \<bar>x\<bar>" and "\<bar>x\<bar> < 2 powi (\<lfloor>log 2 \<bar>x\<bar>\<rfloor> + 1)"
proof -
  have p: "(2::real) powr real_of_int k = 2 powi k" for k
    by (rule powr_real_of_int') simp_all
  have pos: "0 < \<bar>x\<bar>"
    using assms by simp
  from floor_log_eq_powr_iff [of "\<bar>x\<bar>" 2 "\<lfloor>log 2 \<bar>x\<bar>\<rfloor>"] pos
  have "2 powr real_of_int \<lfloor>log 2 \<bar>x\<bar>\<rfloor> \<le> \<bar>x\<bar>"
    and "\<bar>x\<bar> < 2 powr (real_of_int \<lfloor>log 2 \<bar>x\<bar>\<rfloor> + 1)"
    by simp_all
  then show "2 powi \<lfloor>log 2 \<bar>x\<bar>\<rfloor> \<le> \<bar>x\<bar>" and "\<bar>x\<bar> < 2 powi (\<lfloor>log 2 \<bar>x\<bar>\<rfloor> + 1)"
    using p [of "\<lfloor>log 2 \<bar>x\<bar>\<rfloor>"] p [of "\<lfloor>log 2 \<bar>x\<bar>\<rfloor> + 1"] by simp_all
qed

lemma floor_log2_double:
  assumes "x \<noteq> 0"
  shows "\<lfloor>log 2 \<bar>2 * x\<bar>\<rfloor> = \<lfloor>log 2 \<bar>x\<bar>\<rfloor> + 1"
proof (rule floor_log2_eqI)
  have two: "(2::real) powi (k + 1) = 2 * 2 powi k" for k
    by (simp add: power_int_add)
  show "2 powi (\<lfloor>log 2 \<bar>x\<bar>\<rfloor> + 1) \<le> \<bar>2 * x\<bar>"
    using log2_bounds(1) [OF assms] by (simp add: two abs_mult)
  have "\<bar>2 * x\<bar> < 2 * 2 powi (\<lfloor>log 2 \<bar>x\<bar>\<rfloor> + 1)"
    using log2_bounds(2) [OF assms] by (simp add: abs_mult)
  then show "\<bar>2 * x\<bar> < 2 powi (\<lfloor>log 2 \<bar>x\<bar>\<rfloor> + 1 + 1)"
    by (simp only: two [of "\<lfloor>log 2 \<bar>x\<bar>\<rfloor> + 1"])
qed

lemma ulp_of_double:
  assumes "x \<noteq> 0"
  shows "ulp_of (2 * x) = (if - 1022 \<le> \<lfloor>log 2 \<bar>x\<bar>\<rfloor> then 2 * ulp_of x else ulp_of x)"
proof -
  define e where "e = \<lfloor>log 2 \<bar>x\<bar>\<rfloor>"
  have two: "(2::real) powi (k + 1) = 2 * 2 powi k" for k
    by (simp add: power_int_add)
  have u2: "ulp_of (2 * x) = 2 powi (max (e + 1) (- 1022) - 52)"
    by (simp only: ulp_of_def floor_log2_double [OF assms] e_def)
  have u1: "ulp_of x = 2 powi (max e (- 1022) - 52)"
    by (simp only: ulp_of_def e_def)
  show ?thesis
  proof (cases "- 1022 \<le> e")
    case True
    then have "max (e + 1) (- 1022) - 52 = (e - 52) + 1" "max e (- 1022) - 52 = e - 52"
      by simp_all
    then show ?thesis
      using True by (simp only: u1 u2 two flip: e_def) simp
  next
    case False
    then have "max (e + 1) (- 1022) - 52 = max e (- 1022) - 52"
      by simp
    then show ?thesis
      using False by (simp only: u1 u2 flip: e_def) simp
  qed
qed

lemma fround_double:
  assumes "is_double x"
  shows "fround (2 * x) =
    (if huge \<le> \<bar>2 * x\<bar> then (if 0 < x then PInf else NInf) else Fin (2 * x))"
proof (cases "x = 0")
  case True
  then show ?thesis
    by (simp add: fround_def huge_def)
next
  case False
  define n where "n = round_even (x / ulp_of x)"
  from assms False have x: "x = of_int n * ulp_of x"
    by (auto simp add: is_double_def fround_def Let_def n_def split: if_splits)
  have "\<exists>k. 2 * x / ulp_of (2 * x) = of_int k"
  proof (cases "- 1022 \<le> \<lfloor>log 2 \<bar>x\<bar>\<rfloor>")
    case True
    then have "ulp_of (2 * x) = 2 * ulp_of x"
      by (simp add: ulp_of_double [OF False])
    then have "2 * x / ulp_of (2 * x) = x / ulp_of x"
      by simp
    also have "\<dots> = of_int n"
      by (subst x) simp
    finally show ?thesis ..
  next
    case False
    then have "ulp_of (2 * x) = ulp_of x"
      by (simp add: ulp_of_double [OF \<open>x \<noteq> 0\<close>])
    then have "2 * x / ulp_of (2 * x) = 2 * (x / ulp_of x)"
      by simp
    also have "\<dots> = of_int (2 * n)"
      by (subst x) simp
    finally show ?thesis ..
  qed
  then obtain k where k: "2 * x / ulp_of (2 * x) = of_int k" ..
  have "of_int (round_even (2 * x / ulp_of (2 * x))) * ulp_of (2 * x)
      = of_int k * ulp_of (2 * x)"
    by (simp only: k round_even_of_int)
  also have "\<dots> = 2 * x / ulp_of (2 * x) * ulp_of (2 * x)"
    by (simp only: k)
  also have "\<dots> = 2 * x"
    by simp
  finally have "of_int (round_even (2 * x / ulp_of (2 * x))) * ulp_of (2 * x) = 2 * x" .
  then show ?thesis
    using False by (simp add: fround_def Let_def)
qed

lemma is_double_abs: "is_double x \<Longrightarrow> is_double \<bar>x\<bar>"
  by (cases "0 \<le> x") (simp_all add: is_double_def abs_if fround_neg)

lemma is_double_0 [simp]: "is_double 0"
  by (simp add: is_double_def fround_def)

lemma fround_0 [simp]: "fround 0 = Fin 0"
  by (simp add: fround_def)

lemma fround_50 [simp]: "fround 50 = Fin 50"
  by (rule fround_eval [where e = 5 and u = "1 / 2 ^ 47"]) (simp_all add: round_even_def)

lemma fround_100 [simp]: "fround 100 = Fin 100"
  by (rule fround_eval [where e = 6 and u = "1 / 2 ^ 46"]) (simp_all add: round_even_def)

lemma fround_m50 [simp]: "fround (- 50) = Fin (- 50)"
  by (simp add: fround_neg)

lemma clamp_range:
  assumes "lo \<le> hi"
  shows "\<exists>s. py_max2 (Fin lo) (py_min2 (Fin hi) v) = Fin s \<and> lo \<le> s \<and> s \<le> hi"
  using assms by (cases v) (auto simp add: py_max2_def py_min2_def fgt_def)

lemma fge_zero_iff: "fge v (Fin 0) \<longleftrightarrow> v = PInf \<or> (\<exists>y. 0 \<le> y \<and> v = Fin y)"
  by (cases v) (auto simp add: fge_def fle_def)

lemma fround_nonneg_fge: "0 \<le> x \<Longrightarrow> fge (fround x) (Fin 0)"
  using fround_nonneg [of x] by (auto simp add: fge_zero_iff)

lemma fadd_nonneg:
  assumes "fge a (Fin 0)" and "fge b (Fin 0)"
  shows "fge (fadd a b) (Fin 0)"
proof -
  from assms(1) consider "a = PInf" | x where "0 \<le> x" "a = Fin x"
    by (auto simp add: fge_zero_iff)
  then show ?thesis
  proof cases
    case 1
    with assms(2) show ?thesis
      by (cases b) (simp_all add: fge_zero_iff)
  next
    case a: 2
    from assms(2) consider "b = PInf" | y where "0 \<le> y" "b = Fin y"
      by (auto simp add: fge_zero_iff)
    then show ?thesis
    proof cases
      case 1
      with a show ?thesis
        by (simp add: fge_zero_iff)
    next
      case 2
      with a show ?thesis
        by (simp add: fround_nonneg_fge)
    qed
  qed
qed

lemma fdiv_returns: "b \<noteq> Fin 0 \<Longrightarrow> \<exists>v. fdiv a b = Inr v"
  by (cases a; cases b) simp_all



subsection \<open>The operations at the sample inputs\<close>

text \<open>
  Each lemma is one float operation of a run of the code on a sample input: the exact
  result of the operation on the left and the double it rounds to on the right.
\<close>

lemma fround_evalI:
  assumes "2 powi e \<le> \<bar>x\<bar>" and "\<bar>x\<bar> < 2 powi (e + 1)"
    and "of_int (round_even (x / 2 powi (max e (- 1022) - 52))) * 2 powi (max e (- 1022) - 52) = y"
    and "\<bar>y\<bar> < 2 ^ 1024"
  shows "fround x = Fin y"
  by (rule fround_eval [OF assms(1,2) refl assms(3) [symmetric] assms(4)])

lemma ev_a_1: "fround (10 + 20) = Fin (30)"
  by (rule fround_evalI [where e = 4]) (simp_all add: round_even_def)

lemma ev_a_2: "fround (30 / 2) = Fin (15)"
  by (rule fround_evalI [where e = 3]) (simp_all add: round_even_def)

lemma ev_a_3: "fround (10 + - 20) = Fin (- 10)"
  by (rule fround_evalI [where e = 3]) (simp_all add: round_even_def)

lemma ev_a_4: "fround ((- 10) / 15) = Fin (- 6004799503160661 / 2 ^ 53)"
  by (rule fround_evalI [where e = "- 1"]) (simp_all add: round_even_def)

lemma ev_a_5: "fround ((6004799503160661 / 2 ^ 53) * 50) = Fin (2345624805922133 / 2 ^ 46)"
  by (rule fround_evalI [where e = 5]) (simp_all add: round_even_def)

lemma ev_a_6: "fround (50 + (2345624805922133 / 2 ^ 46)) = Fin (5864062014805333 / 2 ^ 46)"
  by (rule fround_evalI [where e = 6]) (simp_all add: round_even_def)

lemma ev_a_7: "fround ((5864062014805333 / 2 ^ 46) * 2) = Fin (5864062014805333 / 2 ^ 45)"
  by (rule fround_evalI [where e = 7]) (simp_all add: round_even_def)

lemma ev_a_8: "fround (0 + 2) = Fin (2)"
  by (rule fround_evalI [where e = 1]) (simp_all add: round_even_def)

lemma ev_a_9: "fround (0 + (5864062014805333 / 2 ^ 45)) = Fin (5864062014805333 / 2 ^ 45)"
  by (rule fround_evalI [where e = 7]) (simp_all add: round_even_def)

lemma ev_a_10: "fround ((5864062014805333 / 2 ^ 45) / 2) = Fin (5864062014805333 / 2 ^ 46)"
  by (rule fround_evalI [where e = 6]) (simp_all add: round_even_def)

lemma ev_a_11: "fround ((- 6004799503160661 / 2 ^ 53) * 50) = Fin (- 2345624805922133 / 2 ^ 46)"
  by (rule fround_evalI [where e = 5]) (simp_all add: round_even_def)

lemma ev_a_12: "fround (50 + (- 2345624805922133 / 2 ^ 46)) = Fin (1172812402961067 / 2 ^ 46)"
  by (rule fround_evalI [where e = 4]) (simp_all add: round_even_def)

lemma ev_a_13: "fround ((1172812402961067 / 2 ^ 46) * 2) = Fin (1172812402961067 / 2 ^ 45)"
  by (rule fround_evalI [where e = 5]) (simp_all add: round_even_def)

lemma ev_b_1: "fround (1 + 0) = Fin (1)"
  by (rule fround_evalI [where e = 0]) (simp_all add: round_even_def)

lemma ev_b_2: "fround (1 / 2) = Fin (1 / 2)"
  by (rule fround_evalI [where e = "- 1"]) (simp_all add: round_even_def)

lemma ev_b_3: "fround (1 + - 0) = Fin (1)"
  by (rule fround_evalI [where e = 0]) (simp_all add: round_even_def)

lemma ev_b_4: "fround (1 / (1 / 2)) = Fin (2)"
  by (rule fround_evalI [where e = 1]) (simp_all add: round_even_def)

lemma ev_b_5: "fround (1 * 50) = Fin (50)"
  by (rule fround_evalI [where e = 5]) (simp_all add: round_even_def)

lemma ev_b_6: "fround (50 + 50) = Fin (100)"
  by (rule fround_evalI [where e = 6]) (simp_all add: round_even_def)

lemma ev_b_7: "fround (100 * (3202922988988625 / 2 ^ 52)) = Fin (5004567170294727 / 2 ^ 46)"
  by (rule fround_evalI [where e = 6]) (simp_all add: round_even_def)

lemma ev_b_8: "fround (0 + (3202922988988625 / 2 ^ 52)) = Fin (3202922988988625 / 2 ^ 52)"
  by (rule fround_evalI [where e = "- 1"]) (simp_all add: round_even_def)

lemma ev_b_9: "fround (0 + (5004567170294727 / 2 ^ 46)) = Fin (5004567170294727 / 2 ^ 46)"
  by (rule fround_evalI [where e = 6]) (simp_all add: round_even_def)

lemma ev_b_10: "fround ((5004567170294727 / 2 ^ 46) / (3202922988988625 / 2 ^ 52)) = Fin (7036874417766401 / 2 ^ 46)"
  by (rule fround_evalI [where e = 6]) (simp_all add: round_even_def)

lemma ev_c_1: "fround (5 + 3) = Fin (8)"
  by (rule fround_evalI [where e = 3]) (simp_all add: round_even_def)

lemma ev_c_2: "fround (8 / 2) = Fin (4)"
  by (rule fround_evalI [where e = 2]) (simp_all add: round_even_def)

lemma ev_c_3: "fround (5 + - 3) = Fin (2)"
  by (rule fround_evalI [where e = 1]) (simp_all add: round_even_def)

lemma ev_c_4: "fround (2 / 4) = Fin (1 / 2)"
  by (rule fround_evalI [where e = "- 1"]) (simp_all add: round_even_def)

lemma ev_c_5: "fround ((1 / 2) * 50) = Fin (25)"
  by (rule fround_evalI [where e = 4]) (simp_all add: round_even_def)

lemma ev_c_6: "fround (50 + 25) = Fin (75)"
  by (rule fround_evalI [where e = 6]) (simp_all add: round_even_def)

lemma ev_c_7: "fround (75 * (3602879701896397 / 2 ^ 55)) = Fin (15 / 2)"
  by (rule fround_evalI [where e = 2]) (simp_all add: round_even_def)

lemma ev_c_8: "fround (75 * (3602879701896397 / 2 ^ 54)) = Fin (15)"
  by (rule fround_evalI [where e = 3]) (simp_all add: round_even_def)

lemma ev_c_9: "fround (75 * (5404319552844595 / 2 ^ 54)) = Fin (45 / 2)"
  by (rule fround_evalI [where e = 4]) (simp_all add: round_even_def)

lemma ev_c_10: "fround (0 + (3602879701896397 / 2 ^ 55)) = Fin (3602879701896397 / 2 ^ 55)"
  by (rule fround_evalI [where e = "- 4"]) (simp_all add: round_even_def)

lemma ev_c_11: "fround (0 + (15 / 2)) = Fin (15 / 2)"
  by (rule fround_evalI [where e = 2]) (simp_all add: round_even_def)

lemma ev_c_12: "fround ((3602879701896397 / 2 ^ 55) + (3602879701896397 / 2 ^ 54)) = Fin (1351079888211149 / 2 ^ 52)"
  by (rule fround_evalI [where e = "- 2"]) (simp_all add: round_even_def)

lemma ev_c_13: "fround ((15 / 2) + 15) = Fin (45 / 2)"
  by (rule fround_evalI [where e = 4]) (simp_all add: round_even_def)

lemma ev_c_14: "fround ((1351079888211149 / 2 ^ 52) + (5404319552844595 / 2 ^ 54)) = Fin (1351079888211149 / 2 ^ 51)"
  by (rule fround_evalI [where e = "- 1"]) (simp_all add: round_even_def)

lemma ev_c_15: "fround ((45 / 2) + (45 / 2)) = Fin (45)"
  by (rule fround_evalI [where e = 5]) (simp_all add: round_even_def)

lemma ev_c_16: "fround (45 / (1351079888211149 / 2 ^ 51)) = Fin (5277655813324799 / 2 ^ 46)"
  by (rule fround_evalI [where e = 6]) (simp_all add: round_even_def)

lemma ev_c_17: "fround (0 + (5404319552844595 / 2 ^ 54)) = Fin (5404319552844595 / 2 ^ 54)"
  by (rule fround_evalI [where e = "- 2"]) (simp_all add: round_even_def)

lemma ev_c_18: "fround (0 + (45 / 2)) = Fin (45 / 2)"
  by (rule fround_evalI [where e = 4]) (simp_all add: round_even_def)

lemma ev_c_19: "fround ((5404319552844595 / 2 ^ 54) + (3602879701896397 / 2 ^ 54)) = Fin (1 / 2)"
  by (rule fround_evalI [where e = "- 1"]) (simp_all add: round_even_def)

lemma ev_c_20: "fround ((45 / 2) + 15) = Fin (75 / 2)"
  by (rule fround_evalI [where e = 5]) (simp_all add: round_even_def)

lemma ev_c_21: "fround ((1 / 2) + (3602879701896397 / 2 ^ 55)) = Fin (5404319552844595 / 2 ^ 53)"
  by (rule fround_evalI [where e = "- 1"]) (simp_all add: round_even_def)

lemma ev_c_22: "fround ((75 / 2) + (15 / 2)) = Fin (45)"
  by (rule fround_evalI [where e = 5]) (simp_all add: round_even_def)

lemma ev_c_23: "fround (45 / (5404319552844595 / 2 ^ 53)) = Fin (75)"
  by (rule fround_evalI [where e = 6]) (simp_all add: round_even_def)

lemma ev_c_24: "fround (3602879701896397 / 2 ^ 54) = Fin (3602879701896397 / 2 ^ 54)"
  by (rule fround_evalI [where e = "- 3"]) (simp_all add: round_even_def)
















section \<open>Properties of the score of one metric\<close>

text \<open>
  The score of the samples 10 and 20 at weight 2, in both directions
  (\<^verbatim>\<open>0.6666666666666666\<close> and \<^verbatim>\<open>166.66666666666666\<close> for \<^verbatim>\<open>"lower"\<close>), and the scores of
  the other sample metrics.
\<close>

lemma example_score:
  "compute_score (Fin (10)) (Fin (20)) (Fin (2)) ''lower'' = Inr (Fin (6004799503160661 / 2 ^ 53), Fin (5864062014805333 / 2 ^ 45))"
  using ev_a_1 ev_a_2 ev_a_3 ev_a_4 ev_a_5 ev_a_6 ev_a_7
  by (simp add: compute_score_def fsub_def py_min2_def py_max2_def fgt_def Let_def)

lemma example_score_higher:
  "compute_score (Fin (10)) (Fin (20)) (Fin (2)) ''higher'' = Inr (Fin (- 6004799503160661 / 2 ^ 53), Fin (1172812402961067 / 2 ^ 45))"
  using ev_a_1 ev_a_2 ev_a_3 ev_a_4 ev_a_11 ev_a_12 ev_a_13
  by (simp add: compute_score_def fsub_def py_min2_def py_max2_def fgt_def Let_def)

lemma rounding_score:
  "compute_score (Fin (1)) (Fin (0)) (Fin (3202922988988625 / 2 ^ 52)) ''higher'' = Inr (Fin (1), Fin (5004567170294727 / 2 ^ 46))"
  using ev_b_1 ev_b_2 ev_b_3 ev_b_4 ev_b_5 ev_b_6 ev_b_7
  by (simp add: compute_score_def fsub_def py_min2_def py_max2_def fgt_def Let_def)

lemma order_score_a:
  "compute_score (Fin (5)) (Fin (3)) (Fin (3602879701896397 / 2 ^ 55)) ''higher'' = Inr (Fin (1 / 2), Fin (15 / 2))"
  using ev_c_1 ev_c_2 ev_c_3 ev_c_4 ev_c_5 ev_c_6 ev_c_7
  by (simp add: compute_score_def fsub_def py_min2_def py_max2_def fgt_def Let_def)

lemma order_score_b:
  "compute_score (Fin (5)) (Fin (3)) (Fin (3602879701896397 / 2 ^ 54)) ''higher'' = Inr (Fin (1 / 2), Fin (15))"
  using ev_c_1 ev_c_2 ev_c_3 ev_c_4 ev_c_5 ev_c_6 ev_c_8
  by (simp add: compute_score_def fsub_def py_min2_def py_max2_def fgt_def Let_def)

lemma order_score_c:
  "compute_score (Fin (5)) (Fin (3)) (Fin (5404319552844595 / 2 ^ 54)) ''higher'' = Inr (Fin (1 / 2), Fin (45 / 2))"
  using ev_c_1 ev_c_2 ev_c_3 ev_c_4 ev_c_5 ev_c_6 ev_c_9
  by (simp add: compute_score_def fsub_def py_min2_def py_max2_def fgt_def Let_def)

text \<open>
  Claim C3. The call does not return for every input: at the smallest positive float,
  \<^verbatim>\<open>rootless = 5e-324\<close> (which is \<open>2 powi (- 1074)\<close>) and \<^verbatim>\<open>rootful = 0.0\<close>, the denominator is
  not zero, so the test \<^verbatim>\<open>denom == 0\<close> fails, its half \<^verbatim>\<open>denom / 2.0\<close> rounds to zero, and
  the division raises \<^verbatim>\<open>ZeroDivisionError\<close>, for every weight and direction. The docstring
  of the function says that the zero denominator is guarded.
\<close>

theorem compute_score_underflow_raises:
  "is_double (2 powi (- 1074)) \<and>
   compute_score (Fin (2 powi (- 1074))) (Fin 0) w d = Inl ZeroDivisionError"
proof -
  have t: "fround (2 powi (- 1074)) = Fin (2 powi (- 1074))"
    by (rule fround_eval [where e = "- 1074" and u = "2 powi (- 1074)"])
      (simp_all add: round_even_def)
  have h: "fround (2 powi (- 1074) / 2) = Fin 0"
    by (rule fround_eval [where e = "- 1075" and u = "2 powi (- 1074)"])
      (simp_all add: round_even_def)
  have nz: "(2::real) powi (- 1074) \<noteq> 0"
    by simp
  have "compute_score (Fin (2 powi (- 1074))) (Fin 0) w d = Inl ZeroDivisionError"
    unfolding compute_score_def Let_def
    by (simp add: t h fsub_def del: power_int_minus power_int_numeral_neg_numeral)
  with t show ?thesis
    by (simp add: is_double_def)
qed

text \<open>
  When the call returns, the delta is a finite float between \<open>-1\<close> and \<open>1\<close> and the
  contribution is the float product of a score between 0 and 100 by the weight.
\<close>

lemma compute_score_delta:
  assumes "compute_score a b w d = Inr (rel, c)"
  shows "\<exists>r. rel = Fin r \<and> - 1 \<le> r \<and> r \<le> 1"
proof -
  have cl: "\<exists>s. py_max2 (Fin (- 1)) (py_min2 (Fin 1) v) = Fin s \<and> - 1 \<le> s \<and> s \<le> 1" for v
    using clamp_range [of "- 1" 1 v] by simp
  from assms obtain rel0 where r0: "rel0 = Fin 0 \<or> (\<exists>v. rel0 = py_max2 (Fin (- 1)) (py_min2 (Fin 1) v))"
    and rel: "rel = (if d = ''lower'' then fneg rel0 else rel0)"
    by (auto simp add: compute_score_def Let_def split: sum.splits if_splits)
  from r0 cl obtain s where "rel0 = Fin s" "- 1 \<le> s" "s \<le> 1"
    by auto
  then show ?thesis
    by (auto simp add: rel)
qed

lemma compute_score_contribution:
  assumes "compute_score a b w d = Inr (rel, c)"
  shows "\<exists>s. 0 \<le> s \<and> s \<le> 100 \<and> c = fmul (Fin s) w"
proof -
  from assms obtain score where "c = fmul (py_max2 (Fin 0) (py_min2 (Fin 100) score)) w"
    by (auto simp add: compute_score_def Let_def split: sum.splits if_splits)
  moreover obtain s where "py_max2 (Fin 0) (py_min2 (Fin 100) score) = Fin s" "0 \<le> s" "s \<le> 100"
    using clamp_range [of 0 100 score] by auto
  ultimately show ?thesis
    by auto
qed

text \<open>
  Claim C5 as stated fails at the infinite samples, which \<^verbatim>\<open>float\<close> accepts (\<^verbatim>\<open>"+Inf"\<close>):
  for \<^verbatim>\<open>rootless = rootful = inf\<close> the values are equal, the difference is NaN, and the
  clamp \<^verbatim>\<open>min(1.0, nan)\<close> is \<^verbatim>\<open>1.0\<close>; so the delta is 1 and the score 100 for
  \<^verbatim>\<open>"higher"\<close>, and the delta \<open>-1\<close> and the score 0 for \<^verbatim>\<open>"lower"\<close>.
\<close>

theorem compute_score_infinite_counterexample:
  "feq PInf PInf \<and>
   compute_score PInf PInf (Fin 1) ''higher'' = Inr (Fin 1, Fin 100) \<and>
   compute_score PInf PInf (Fin 1) ''lower'' = Inr (Fin (- 1), Fin 0)"
  by (simp add: compute_score_def fsub_def py_min2_def py_max2_def fgt_def Let_def)

text \<open>
  Claim C5, amended. For every finite float \<open>x\<close>, zero included, the call with
  \<^verbatim>\<open>rootless = rootful = x\<close> returns, with the delta 0 and the contribution
  \<^verbatim>\<open>50.0 * weight\<close>, for every weight and every direction.
\<close>

theorem compute_score_equal_finite:
  assumes "is_double x"
  shows "compute_score (Fin x) (Fin x) w d = Inr (Fin 0, fmul (Fin 50) w)"
proof -
  have tail: "(let rel' = (if d = ''lower'' then fneg (Fin 0) else Fin 0);
              score = fadd (Fin 50) (fmul rel' (Fin 50));
              score' = py_max2 (Fin 0) (py_min2 (Fin 100) score)
          in Inr (rel', fmul score' w)) = (Inr (Fin 0, fmul (Fin 50) w) :: error + _)"
    by (simp add: py_max2_def py_min2_def fgt_def Let_def)
  have clamp0: "py_max2 (Fin (- 1)) (py_min2 (Fin 1) (Fin 0)) = Fin 0"
    by (simp add: py_max2_def py_min2_def fgt_def)
  have diff: "fsub (Fin x) (Fin x) = Fin 0"
    by (simp add: fsub_def)
  have denom: "fadd (fabs (Fin x)) (fabs (Fin x)) = fround (2 * \<bar>x\<bar>)"
    by (simp only: fabs.simps fadd.simps mult_2)
  show ?thesis
  proof (cases "x = 0")
    case True
    then show ?thesis
      unfolding compute_score_def Let_def by (simp add: tail [unfolded Let_def])
  next
    case False
    note dbl = fround_double [OF is_double_abs [OF assms]]
    show ?thesis
    proof (cases "huge \<le> \<bar>2 * \<bar>x\<bar>\<bar>")
      case True
      with dbl False have d: "fround (2 * \<bar>x\<bar>) = PInf"
        by simp
      show ?thesis
        unfolding compute_score_def Let_def denom d
        by (simp add: diff clamp0 tail [unfolded Let_def])
    next
      case no: False
      with dbl have d: "fround (2 * \<bar>x\<bar>) = Fin (2 * \<bar>x\<bar>)"
        by simp
      have ax: "fround \<bar>x\<bar> = Fin \<bar>x\<bar>"
        using is_double_abs [OF assms] by (simp add: is_double_def)
      show ?thesis
        unfolding compute_score_def Let_def denom d
        using False by (simp add: diff ax clamp0 tail [unfolded Let_def])
    qed
  qed
qed

text \<open>
  The samples 100 and 100, and the two zeros.
\<close>

theorem compute_score_equal_finite_witness:
  "is_double 100 \<and> is_double 0 \<and>
   compute_score (Fin 100) (Fin 100) (Fin 1) ''higher'' = Inr (Fin 0, Fin 50) \<and>
   compute_score (Fin 0) (Fin 0) (Fin 1) ''lower'' = Inr (Fin 0, Fin 50)"
proof -
  have a: "is_double 100"
    by (simp add: is_double_def)
  have b: "is_double 0"
    by simp
  from compute_score_equal_finite [OF a, of "Fin 1" "''higher''"]
    compute_score_equal_finite [OF b, of "Fin 1" "''lower''"] a b
  show ?thesis
    by simp
qed

text \<open>
  Claim C6. For all raw values and every weight, the call with the direction
  \<^verbatim>\<open>"lower"\<close> raises exactly when the call with \<^verbatim>\<open>"higher"\<close> raises, and when they return
  the two deltas are finite floats, each the negation of the other.
\<close>

theorem compute_score_direction_negates:
  "(\<forall>e. compute_score a b w ''higher'' = Inl e \<longleftrightarrow> compute_score a b w ''lower'' = Inl e) \<and>
   (\<forall>rel c. compute_score a b w ''higher'' = Inr (rel, c) \<longrightarrow>
      (\<exists>x c'. rel = Fin x \<and> compute_score a b w ''lower'' = Inr (Fin (- x), c'))) \<and>
   (\<forall>rel c. compute_score a b w ''lower'' = Inr (rel, c) \<longrightarrow>
      (\<exists>x c'. rel = Fin x \<and> compute_score a b w ''higher'' = Inr (Fin (- x), c')))"
proof -
  have nn: "fneg (fneg v) = v" for v
    by (cases v) simp_all
  have base: "(\<forall>e. compute_score a b w ''higher'' = Inl e \<longleftrightarrow> compute_score a b w ''lower'' = Inl e) \<and>
   (\<forall>rel c. compute_score a b w ''higher'' = Inr (rel, c) \<longrightarrow>
      (\<exists>c'. compute_score a b w ''lower'' = Inr (fneg rel, c'))) \<and>
   (\<forall>rel c. compute_score a b w ''lower'' = Inr (rel, c) \<longrightarrow>
      (\<exists>c'. compute_score a b w ''higher'' = Inr (fneg rel, c')))"
    by (auto simp add: compute_score_def Let_def nn split: sum.splits if_splits)
  show ?thesis
  proof (intro conjI allI impI)
    fix e
    from base show "compute_score a b w ''higher'' = Inl e \<longleftrightarrow> compute_score a b w ''lower'' = Inl e"
      by blast
  next
    fix rel c
    assume h: "compute_score a b w ''higher'' = Inr (rel, c)"
    from compute_score_delta [OF h] obtain x where x: "rel = Fin x"
      by blast
    from base h obtain c' where "compute_score a b w ''lower'' = Inr (fneg rel, c')"
      by blast
    with x show "\<exists>x c'. rel = Fin x \<and> compute_score a b w ''lower'' = Inr (Fin (- x), c')"
      by simp
  next
    fix rel c
    assume h: "compute_score a b w ''lower'' = Inr (rel, c)"
    from compute_score_delta [OF h] obtain x where x: "rel = Fin x"
      by blast
    from base h obtain c' where "compute_score a b w ''higher'' = Inr (fneg rel, c')"
      by blast
    with x show "\<exists>x c'. rel = Fin x \<and> compute_score a b w ''higher'' = Inr (Fin (- x), c')"
      by simp
  qed
qed

text \<open>
  The samples 10 and 20: the delta \<^verbatim>\<open>-0.6666666666666666\<close> for \<^verbatim>\<open>"higher"\<close> and its negation
  for \<^verbatim>\<open>"lower"\<close>.
\<close>

theorem compute_score_direction_negates_witness:
  "compute_score (Fin 10) (Fin 20) (Fin 2) ''higher'' =
     Inr (Fin (- 6004799503160661 / 2 ^ 53), Fin (1172812402961067 / 2 ^ 45)) \<and>
   (\<exists>c'. compute_score (Fin 10) (Fin 20) (Fin 2) ''lower'' =
      Inr (Fin (6004799503160661 / 2 ^ 53), c'))"
  using compute_score_direction_negates [of "Fin 10" "Fin 20" "Fin 2"] example_score_higher
  by auto

section \<open>Properties of the verdict\<close>

text \<open>With the four keys present no lookup raises, and the verdict is the chain of tests.\<close>

lemma verdict_of_chain:
  assumes "T ''strong_rootless'' = Some srl" and "T ''mild_rootless'' = Some mrl"
    and "T ''strong_rootful'' = Some srf" and "T ''mild_rootful'' = Some mrf"
  shows "verdict_of T s = Inr
     (if s \<ge> srl then ''strong prefer rootless''
      else if s \<ge> mrl then ''mild prefer rootless''
      else if s \<le> srf then ''strong prefer rootful''
      else if s \<le> mrf then ''mild prefer rootful''
      else ''inconclusive'')"
  using assms by (simp add: verdict_of_def getitem_def)


lemma threshold_set_keys:
  "threshold_set srl mrl mrf srf ''strong_rootless'' = Some srl"
  "threshold_set srl mrl mrf srf ''mild_rootless'' = Some mrl"
  "threshold_set srl mrl mrf srf ''strong_rootful'' = Some srf"
  "threshold_set srl mrl mrf srf ''mild_rootful'' = Some mrf"
  by (simp_all add: threshold_set_def)







section \<open>Properties of a repetition\<close>

text \<open>
  The step of the loop is the outcome of the metric applied to the state, and the loop
  is the left fold of the outcomes: the two sums are float sums in the order of the
  specs.
\<close>

lemma metric_step_outcome:
  "metric_step prom rl rf name spec st =
    (case metric_outcome prom rl rf spec of
       Inl e \<Rightarrow> Inl e
     | Inr (res, added) \<Rightarrow>
         Inr \<lparr>rep_metrics = AList.update name res (rep_metrics st),
              total_weight =
                (case added of None \<Rightarrow> total_weight st | Some (w, c) \<Rightarrow> fadd (total_weight st) w),
              weighted_sum =
                (case added of None \<Rightarrow> weighted_sum st | Some (w, c) \<Rightarrow> fadd (weighted_sum st) c)\<rparr>)"
  by (simp add: metric_step_def metric_outcome_def split: option.splits sum.splits prod.splits)

lemma metrics_loop_closed_form:
  assumes "\<forall>(name, spec) \<in> set ms. metric_outcome prom rl rf spec = Inr (out spec)"
  shows "metrics_loop prom rl rf ms st =
    Inr \<lparr>rep_metrics = fold (\<lambda>(name, spec). AList.update name (fst (out spec))) ms (rep_metrics st),
         total_weight =
           foldl (\<lambda>t (name, spec). case snd (out spec) of None \<Rightarrow> t | Some (w, c) \<Rightarrow> fadd t w)
             (total_weight st) ms,
         weighted_sum =
           foldl (\<lambda>t (name, spec). case snd (out spec) of None \<Rightarrow> t | Some (w, c) \<Rightarrow> fadd t c)
             (weighted_sum st) ms\<rparr>"
  using assms
proof (induction ms arbitrary: st)
  case Nil
  then show ?case by simp
next
  case (Cons x xs)
  obtain name spec where x: "x = (name, spec)"
    by (cases x)
  have o: "metric_outcome prom rl rf spec = Inr (out spec)"
    using Cons.prems x by simp
  obtain res added where out: "out spec = (res, added)"
    by (cases "out spec")
  have rest: "\<forall>(name, spec) \<in> set xs. metric_outcome prom rl rf spec = Inr (out spec)"
    using Cons.prems by simp
  show ?case
    unfolding x
    by (simp add: metric_step_outcome o out Cons.IH [OF rest])
qed

lemma metrics_loop_returns_outcomes:
  assumes "metrics_loop prom rl rf ms st = Inr st'" and "(name, spec) \<in> set ms"
  shows "\<exists>out. metric_outcome prom rl rf spec = Inr out"
  using assms
proof (induction ms arbitrary: st)
  case Nil
  then show ?case by simp
next
  case (Cons x xs)
  obtain n sp where x: "x = (n, sp)"
    by (cases x)
  from Cons.prems(1) obtain out where o: "metric_outcome prom rl rf sp = Inr out"
    unfolding x by (cases "metric_outcome prom rl rf sp") (simp_all add: metric_step_outcome)
  obtain st1 where s1: "metric_step prom rl rf n sp st = Inr st1"
    and l: "metrics_loop prom rl rf xs st1 = Inr st'"
    using Cons.prems(1) unfolding x
    by (cases "metric_step prom rl rf n sp st") simp_all
  show ?case
  proof (cases "(name, spec) = (n, sp)")
    case True
    with o show ?thesis by blast
  next
    case False
    with Cons.prems(2) x have "(name, spec) \<in> set xs"
      by auto
    from Cons.IH [OF l this] show ?thesis .
  qed
qed

lemma update_fresh_key:
  "k \<notin> fst ` set al \<Longrightarrow> AList.update k v al = al @ [(k, v)]"
  by (induction al) auto

lemma fold_update_distinct:
  assumes "distinct (map fst ms)" and "fst ` set acc \<inter> fst ` set ms = {}"
  shows "fold (\<lambda>(name, spec). AList.update name (f spec)) ms acc =
    acc @ map (\<lambda>(name, spec). (name, f spec)) ms"
  using assms
proof (induction ms arbitrary: acc)
  case Nil
  then show ?case by simp
next
  case (Cons x xs)
  obtain name spec where x: "x = (name, spec)"
    by (cases x)
  have fresh: "name \<notin> fst ` set acc"
    using Cons.prems(2) x by auto
  have d: "distinct (map fst xs)"
    using Cons.prems(1) by simp
  have disj: "fst ` set (acc @ [(name, f spec)]) \<inter> fst ` set xs = {}"
    using Cons.prems x by auto
  show ?case
    unfolding x
    by (simp add: update_fresh_key [OF fresh] Cons.IH [OF d disj])
qed

lemma metrics_loop_from_empty:
  assumes "\<forall>(name, spec) \<in> set ms. metric_outcome prom rl rf spec = Inr (out spec)"
    and "distinct (map fst ms)"
  shows "metrics_loop prom rl rf ms \<lparr>rep_metrics = [], total_weight = Fin 0, weighted_sum = Fin 0\<rparr> =
    Inr \<lparr>rep_metrics = map (\<lambda>(name, spec). (name, fst (out spec))) ms,
         total_weight =
           foldl (\<lambda>t (name, spec). case snd (out spec) of None \<Rightarrow> t | Some (w, c) \<Rightarrow> fadd t w)
             (Fin 0) ms,
         weighted_sum =
           foldl (\<lambda>t (name, spec). case snd (out spec) of None \<Rightarrow> t | Some (w, c) \<Rightarrow> fadd t c)
             (Fin 0) ms\<rparr>"
  by (simp add: metrics_loop_closed_form [OF assms(1)]
      fold_update_distinct [OF assms(2), of "[]" "\<lambda>spec. fst (out spec)", simplified])

lemma aggregate_score_returns: "\<exists>ws. aggregate_score tw s = Inr ws"
proof (cases "fgt tw (Fin 0)")
  case True
  then have "tw \<noteq> Fin 0"
    by (auto simp add: fgt_def)
  from fdiv_returns [OF this] True show ?thesis
    by (simp add: aggregate_score_def)
next
  case False
  then show ?thesis
    by (simp add: aggregate_score_def)
qed

lemma classify_returns:
  assumes "T ''strong_rootless'' = Some srl" and "T ''mild_rootless'' = Some mrl"
    and "T ''strong_rootful'' = Some srf" and "T ''mild_rootful'' = Some mrf"
  shows "\<exists>v. classify T ws = Inr v"
  using assms by (cases ws) (simp_all add: classify_def verdict_of_def getitem_def)

lemma repetition_Inr_iff:
  "repetition prom rl rf ms T i now = Inr r \<longleftrightarrow>
    (\<exists>st ws v. metrics_loop prom rl rf ms \<lparr>rep_metrics = [], total_weight = Fin 0, weighted_sum = Fin 0\<rparr>
         = Inr st \<and>
       aggregate_score (total_weight st) (weighted_sum st) = Inr ws \<and>
       classify T ws = Inr v \<and>
       r = \<lparr>rep = i + 1, timestamp = now, metrics = rep_metrics st,
            weighted_score = ws, verdict = v, effective_weight = total_weight st\<rparr>)"
  by (auto simp add: repetition_def split: sum.splits)

lemma metric_outcome_missing:
  assumes "query spec = Some q" and "fetch prom q rl = Inr (rl_val, rl_ok)"
    and "fetch prom q rf = Inr (rf_val, rf_ok)" and "\<not> (rl_ok \<and> rf_ok)"
  shows "metric_outcome prom rl rf spec =
    Inr (\<lparr>rootless_value = rl_val, rootful_value = rf_val,
          m_direction = direction_of spec, m_weight = weight_of spec,
          included = False, reason = Some ''missing series'',
          normalized_delta = None, weighted_score_contrib = None\<rparr>, None)"
  using assms by (simp add: metric_outcome_def)

lemma series_missing_outcome:
  assumes "series_missing prom rl rf spec"
  shows "\<exists>res. metric_outcome prom rl rf spec = Inr (res, None)"
  using assms
  by (auto simp add: series_missing_def metric_outcome_def
      split: option.splits sum.splits prod.splits)

lemma foldl_filter_skip:
  assumes "\<forall>x \<in> set xs. \<not> P x \<longrightarrow> (\<forall>a. f a x = a)"
  shows "foldl f a (filter P xs) = foldl f a xs"
  using assms by (induction xs arbitrary: a) simp_all

lemma metric_outcome_scored:
  assumes "metric_outcome prom rl rf spec = Inr (res, Some (w, c))"
  shows "w = weight_of spec \<and>
    (\<exists>a b rel. compute_score a b (weight_of spec) (direction_of spec) = Inr (rel, c))"
proof -
  from assms obtain q where q: "query spec = Some q"
    by (cases "query spec") (simp_all add: metric_outcome_def)
  from assms q obtain rl_val rl_ok where f1: "fetch prom q rl = Inr (rl_val, rl_ok)"
    by (cases "fetch prom q rl") (auto simp add: metric_outcome_def)
  from assms q f1 obtain rf_val rf_ok where f2: "fetch prom q rf = Inr (rf_val, rf_ok)"
    by (cases "fetch prom q rf") (auto simp add: metric_outcome_def)
  from assms q f1 f2 have ok: "rl_ok \<and> rf_ok"
    by (cases "rl_ok \<and> rf_ok") (simp_all add: metric_outcome_def)
  from assms q f1 f2 ok obtain rel weighted where
    cs: "compute_score (or_zero rl_val) (or_zero rf_val) (weight_of spec) (direction_of spec)
      = Inr (rel, weighted)"
    by (cases "compute_score (or_zero rl_val) (or_zero rf_val) (weight_of spec) (direction_of spec)")
      (auto simp add: metric_outcome_def)
  from assms q f1 f2 ok cs have "w = weight_of spec" "c = weighted"
    by (simp_all add: metric_outcome_def)
  with cs show ?thesis
    by blast
qed

lemma metric_outcome_nonneg:
  assumes "metric_outcome prom rl rf spec = Inr (res, Some (w, c))"
    and "0 \<le> y" and "weight_of spec = Fin y"
  shows "fge w (Fin 0) \<and> fge c (Fin 0)"
proof -
  from metric_outcome_scored [OF assms(1)] obtain a b rel where w: "w = weight_of spec"
    and cs: "compute_score a b (weight_of spec) (direction_of spec) = Inr (rel, c)"
    by blast
  from compute_score_contribution [OF cs] obtain s where s: "0 \<le> s" "c = fmul (Fin s) (weight_of spec)"
    by blast
  have "0 \<le> s * y"
    using s(1) assms(2) by simp
  then have "fge (fround (s * y)) (Fin 0)"
    by (rule fround_nonneg_fge)
  then have "fge c (Fin 0)"
    by (simp add: s(2) assms(3))
  moreover have "fge w (Fin 0)"
    using assms(2) by (simp add: w assms(3) fge_zero_iff)
  ultimately show ?thesis
    by simp
qed

lemma metrics_loop_invariant:
  assumes "metrics_loop prom rl rf ms st = Inr st'"
    and "\<forall>(name, spec) \<in> set ms. \<exists>y. 0 \<le> y \<and> weight_of spec = Fin y"
    and "fge (weighted_sum st) (Fin 0)"
  shows "fge (weighted_sum st') (Fin 0)"
  using assms
proof (induction ms arbitrary: st)
  case Nil
  then show ?case by simp
next
  case (Cons x xs)
  obtain name spec where x: "x = (name, spec)"
    by (cases x)
  obtain st1 where s1: "metric_step prom rl rf name spec st = Inr st1"
    and l: "metrics_loop prom rl rf xs st1 = Inr st'"
    using Cons.prems(1) unfolding x
    by (cases "metric_step prom rl rf name spec st") simp_all
  from Cons.prems(2) x obtain y where y: "0 \<le> y" "weight_of spec = Fin y"
    by auto
  from s1 obtain res added where o: "metric_outcome prom rl rf spec = Inr (res, added)"
    and st1: "weighted_sum st1 =
      (case added of None \<Rightarrow> weighted_sum st | Some (w, c) \<Rightarrow> fadd (weighted_sum st) c)"
    by (auto simp add: metric_step_outcome split: sum.splits)
  have inv1: "fge (weighted_sum st1) (Fin 0)"
  proof (cases added)
    case None
    with st1 Cons.prems(3) show ?thesis by simp
  next
    case (Some p)
    obtain w c where p: "p = (w, c)"
      by (cases p)
    from metric_outcome_nonneg [OF o [unfolded Some p] y] have "fge c (Fin 0)"
      by simp
    with st1 Cons.prems(3) show ?thesis
      by (simp add: Some p fadd_nonneg)
  qed
  have ws: "\<forall>(name, spec) \<in> set xs. \<exists>y. 0 \<le> y \<and> weight_of spec = Fin y"
    using Cons.prems(2) by simp
  from Cons.IH [OF l ws inv1] show ?case .
qed

subsection \<open>The sample inputs, evaluated\<close>

lemma example_fetch:
  \<open>fetch example_prom ''cpu'' ''rl'' = Inr (Some (Fin 10), True)\<close>
  \<open>fetch example_prom ''cpu'' ''rf'' = Inr (Some (Fin 20), True)\<close>
  \<open>fetch example_prom ''mem{job="x"}'' ''rl'' = Inr (Some (Fin 100), True)\<close>
  \<open>fetch example_prom ''mem{job="x"}'' ''rf'' = Inr (None, False)\<close>
  by (simp_all add: fetch_def with_container_def rsplit1_def prom_query_def example_prom_def)

lemma example_outcomes:
  \<open>metric_outcome example_prom ''rl'' ''rf''
     \<lparr>query = Some ''cpu'', weight = Some (Fin 2), direction = Some ''lower''\<rparr> =
   Inr (\<lparr>rootless_value = Some (Fin 10), rootful_value = Some (Fin 20), m_direction = ''lower'',
             m_weight = Fin (2), included = True, reason = None,
             normalized_delta = Some (Fin (6004799503160661 / 2 ^ 53)),
             weighted_score_contrib = Some (Fin (5864062014805333 / 2 ^ 45))\<rparr>, Some (Fin 2, Fin (5864062014805333 / 2 ^ 45)))\<close>
  \<open>metric_outcome example_prom ''rl'' ''rf''
     \<lparr>query = Some ''mem{job="x"}'', weight = Some (Fin 1), direction = Some ''higher''\<rparr> =
   Inr (\<lparr>rootless_value = Some (Fin 100), rootful_value = None, m_direction = ''higher'',
             m_weight = Fin 1, included = False, reason = Some ''missing series'',
             normalized_delta = None, weighted_score_contrib = None\<rparr>, None)\<close>
  using example_score
  by (simp_all add: metric_outcome_def example_fetch or_zero_def weight_of_def direction_of_def)

lemma example_loop:
  "metrics_loop example_prom ''rl'' ''rf'' example_metrics
     \<lparr>rep_metrics = [], total_weight = Fin 0, weighted_sum = Fin 0\<rparr> =
   Inr \<lparr>rep_metrics =
         [(''cpu'', \<lparr>rootless_value = Some (Fin 10), rootful_value = Some (Fin 20), m_direction = ''lower'',
             m_weight = Fin (2), included = True, reason = None,
             normalized_delta = Some (Fin (6004799503160661 / 2 ^ 53)),
             weighted_score_contrib = Some (Fin (5864062014805333 / 2 ^ 45))\<rparr>),
          (''mem'', \<lparr>rootless_value = Some (Fin 100), rootful_value = None, m_direction = ''higher'',
             m_weight = Fin 1, included = False, reason = Some ''missing series'',
             normalized_delta = None, weighted_score_contrib = None\<rparr>)],
        total_weight = Fin (2), weighted_sum = Fin (5864062014805333 / 2 ^ 45)\<rparr>"
  using ev_a_8 ev_a_9 ev_a_10 example_outcomes
  by (simp add: example_metrics_def metric_step_outcome)

lemma example_loop_rev:
  "metrics_loop example_prom ''rl'' ''rf'' (rev example_metrics)
     \<lparr>rep_metrics = [], total_weight = Fin 0, weighted_sum = Fin 0\<rparr> =
   Inr \<lparr>rep_metrics =
         [(''mem'', \<lparr>rootless_value = Some (Fin 100), rootful_value = None, m_direction = ''higher'',
             m_weight = Fin 1, included = False, reason = Some ''missing series'',
             normalized_delta = None, weighted_score_contrib = None\<rparr>),
          (''cpu'', \<lparr>rootless_value = Some (Fin 10), rootful_value = Some (Fin 20), m_direction = ''lower'',
             m_weight = Fin (2), included = True, reason = None,
             normalized_delta = Some (Fin (6004799503160661 / 2 ^ 53)),
             weighted_score_contrib = Some (Fin (5864062014805333 / 2 ^ 45))\<rparr>)],
        total_weight = Fin (2), weighted_sum = Fin (5864062014805333 / 2 ^ 45)\<rparr>"
  using ev_a_8 ev_a_9 ev_a_10 example_outcomes
  by (simp add: example_metrics_def metric_step_outcome)

lemma example_loop_tl:
  "metrics_loop example_prom ''rl'' ''rf'' (tl example_metrics)
     \<lparr>rep_metrics = [], total_weight = Fin 0, weighted_sum = Fin 0\<rparr> =
   Inr \<lparr>rep_metrics =
         [(''mem'', \<lparr>rootless_value = Some (Fin 100), rootful_value = None, m_direction = ''higher'',
             m_weight = Fin 1, included = False, reason = Some ''missing series'',
             normalized_delta = None, weighted_score_contrib = None\<rparr>)],
        total_weight = Fin (0), weighted_sum = Fin (0)\<rparr>"
  using TrueI example_outcomes
  by (simp add: example_metrics_def metric_step_outcome)

lemma example_repetition:
  "repetition example_prom ''rl'' ''rf'' example_metrics (threshold_set 75 60 40 25) 0 now =
   Inr \<lparr>rep = 1, timestamp = now,
        metrics =
         [(''cpu'', \<lparr>rootless_value = Some (Fin 10), rootful_value = Some (Fin 20), m_direction = ''lower'',
             m_weight = Fin (2), included = True, reason = None,
             normalized_delta = Some (Fin (6004799503160661 / 2 ^ 53)),
             weighted_score_contrib = Some (Fin (5864062014805333 / 2 ^ 45))\<rparr>),
          (''mem'', \<lparr>rootless_value = Some (Fin 100), rootful_value = None, m_direction = ''higher'',
             m_weight = Fin 1, included = False, reason = Some ''missing series'',
             normalized_delta = None, weighted_score_contrib = None\<rparr>)],
        weighted_score = Fin (5864062014805333 / 2 ^ 46), verdict = ''strong prefer rootless'',
        effective_weight = Fin (2)\<rparr>"
  using ev_a_8 ev_a_9 ev_a_10 example_loop
  by (simp add: repetition_def aggregate_score_def fgt_def classify_def
      verdict_of_chain [OF threshold_set_keys])

lemma example_repetition_rev:
  "repetition example_prom ''rl'' ''rf'' (rev example_metrics) (threshold_set 75 60 40 25) 0 now =
   Inr \<lparr>rep = 1, timestamp = now,
        metrics =
         [(''mem'', \<lparr>rootless_value = Some (Fin 100), rootful_value = None, m_direction = ''higher'',
             m_weight = Fin 1, included = False, reason = Some ''missing series'',
             normalized_delta = None, weighted_score_contrib = None\<rparr>),
          (''cpu'', \<lparr>rootless_value = Some (Fin 10), rootful_value = Some (Fin 20), m_direction = ''lower'',
             m_weight = Fin (2), included = True, reason = None,
             normalized_delta = Some (Fin (6004799503160661 / 2 ^ 53)),
             weighted_score_contrib = Some (Fin (5864062014805333 / 2 ^ 45))\<rparr>)],
        weighted_score = Fin (5864062014805333 / 2 ^ 46), verdict = ''strong prefer rootless'',
        effective_weight = Fin (2)\<rparr>"
  using ev_a_8 ev_a_9 ev_a_10 example_loop_rev
  by (simp add: repetition_def aggregate_score_def fgt_def classify_def
      verdict_of_chain [OF threshold_set_keys])

lemma example_repetition_tl:
  "repetition example_prom ''rl'' ''rf'' (tl example_metrics) (threshold_set 75 60 40 25) 0 now =
   Inr \<lparr>rep = 1, timestamp = now,
        metrics =
         [(''mem'', \<lparr>rootless_value = Some (Fin 100), rootful_value = None, m_direction = ''higher'',
             m_weight = Fin 1, included = False, reason = Some ''missing series'',
             normalized_delta = None, weighted_score_contrib = None\<rparr>)],
        weighted_score = Fin (50), verdict = ''inconclusive'',
        effective_weight = Fin (0)\<rparr>"
  using TrueI example_loop_tl
  by (simp add: repetition_def aggregate_score_def fgt_def classify_def
      verdict_of_chain [OF threshold_set_keys])

lemma rounding_fetch:
  \<open>fetch rounding_prom ''m'' ''rl'' = Inr (Some (Fin 1), True)\<close>
  \<open>fetch rounding_prom ''m'' ''rf'' = Inr (Some (Fin 0), True)\<close>
  by (simp_all add: fetch_def with_container_def rsplit1_def prom_query_def rounding_prom_def)

lemma rounding_outcome:
  "metric_outcome rounding_prom ''rl'' ''rf''
     \<lparr>query = Some ''m'', weight = Some (Fin (3202922988988625 / 2 ^ 52)), direction = None\<rparr> =
   Inr (\<lparr>rootless_value = Some (Fin 1), rootful_value = Some (Fin 0), m_direction = ''higher'',
             m_weight = Fin (3202922988988625 / 2 ^ 52), included = True, reason = None,
             normalized_delta = Some (Fin (1)),
             weighted_score_contrib = Some (Fin (5004567170294727 / 2 ^ 46))\<rparr>, Some (Fin (3202922988988625 / 2 ^ 52), Fin (5004567170294727 / 2 ^ 46)))"
  using rounding_score
  by (simp add: metric_outcome_def rounding_fetch or_zero_def weight_of_def direction_of_def)

lemma rounding_loop:
  "metrics_loop rounding_prom ''rl'' ''rf'' rounding_metrics
     \<lparr>rep_metrics = [], total_weight = Fin 0, weighted_sum = Fin 0\<rparr> =
   Inr \<lparr>rep_metrics =
         [(''m'', \<lparr>rootless_value = Some (Fin 1), rootful_value = Some (Fin 0), m_direction = ''higher'',
             m_weight = Fin (3202922988988625 / 2 ^ 52), included = True, reason = None,
             normalized_delta = Some (Fin (1)),
             weighted_score_contrib = Some (Fin (5004567170294727 / 2 ^ 46))\<rparr>)],
        total_weight = Fin (3202922988988625 / 2 ^ 52), weighted_sum = Fin (5004567170294727 / 2 ^ 46)\<rparr>"
  using ev_b_8 ev_b_9 ev_b_10 rounding_outcome
  by (simp add: rounding_metrics_def metric_step_outcome)

lemma rounding_repetition:
  "repetition rounding_prom ''rl'' ''rf'' rounding_metrics (threshold_set 75 60 40 25) 0 now =
   Inr \<lparr>rep = 1, timestamp = now,
        metrics =
         [(''m'', \<lparr>rootless_value = Some (Fin 1), rootful_value = Some (Fin 0), m_direction = ''higher'',
             m_weight = Fin (3202922988988625 / 2 ^ 52), included = True, reason = None,
             normalized_delta = Some (Fin (1)),
             weighted_score_contrib = Some (Fin (5004567170294727 / 2 ^ 46))\<rparr>)],
        weighted_score = Fin (7036874417766401 / 2 ^ 46), verdict = ''strong prefer rootless'',
        effective_weight = Fin (3202922988988625 / 2 ^ 52)\<rparr>"
  using ev_b_8 ev_b_9 ev_b_10 rounding_loop
  by (simp add: repetition_def aggregate_score_def fgt_def classify_def
      verdict_of_chain [OF threshold_set_keys])

lemma order_fetch:
  \<open>fetch order_prom ''a'' ''rl'' = Inr (Some (Fin 5), True)\<close>
  \<open>fetch order_prom ''a'' ''rf'' = Inr (Some (Fin 3), True)\<close>
  \<open>fetch order_prom ''b'' ''rl'' = Inr (Some (Fin 5), True)\<close>
  \<open>fetch order_prom ''b'' ''rf'' = Inr (Some (Fin 3), True)\<close>
  \<open>fetch order_prom ''c'' ''rl'' = Inr (Some (Fin 5), True)\<close>
  \<open>fetch order_prom ''c'' ''rf'' = Inr (Some (Fin 3), True)\<close>
  by (simp_all add: fetch_def with_container_def rsplit1_def prom_query_def order_prom_def)

lemma order_outcomes:
  "metric_outcome order_prom ''rl'' ''rf''
     \<lparr>query = Some ''a'', weight = Some (Fin (3602879701896397 / 2 ^ 55)), direction = None\<rparr> =
   Inr (\<lparr>rootless_value = Some (Fin 5), rootful_value = Some (Fin 3), m_direction = ''higher'',
             m_weight = Fin (3602879701896397 / 2 ^ 55), included = True, reason = None,
             normalized_delta = Some (Fin (1 / 2)),
             weighted_score_contrib = Some (Fin (15 / 2))\<rparr>, Some (Fin (3602879701896397 / 2 ^ 55), Fin (15 / 2)))"
  "metric_outcome order_prom ''rl'' ''rf''
     \<lparr>query = Some ''b'', weight = Some (Fin (3602879701896397 / 2 ^ 54)), direction = None\<rparr> =
   Inr (\<lparr>rootless_value = Some (Fin 5), rootful_value = Some (Fin 3), m_direction = ''higher'',
             m_weight = Fin (3602879701896397 / 2 ^ 54), included = True, reason = None,
             normalized_delta = Some (Fin (1 / 2)),
             weighted_score_contrib = Some (Fin (15))\<rparr>, Some (Fin (3602879701896397 / 2 ^ 54), Fin (15)))"
  "metric_outcome order_prom ''rl'' ''rf''
     \<lparr>query = Some ''c'', weight = Some (Fin (5404319552844595 / 2 ^ 54)), direction = None\<rparr> =
   Inr (\<lparr>rootless_value = Some (Fin 5), rootful_value = Some (Fin 3), m_direction = ''higher'',
             m_weight = Fin (5404319552844595 / 2 ^ 54), included = True, reason = None,
             normalized_delta = Some (Fin (1 / 2)),
             weighted_score_contrib = Some (Fin (45 / 2))\<rparr>, Some (Fin (5404319552844595 / 2 ^ 54), Fin (45 / 2)))"
  using order_score_a order_score_b order_score_c
  by (simp_all add: metric_outcome_def order_fetch or_zero_def weight_of_def direction_of_def)

lemma order_loop:
  "metrics_loop order_prom ''rl'' ''rf'' order_metrics
     \<lparr>rep_metrics = [], total_weight = Fin 0, weighted_sum = Fin 0\<rparr> =
   Inr \<lparr>rep_metrics =
         [(''a'', \<lparr>rootless_value = Some (Fin 5), rootful_value = Some (Fin 3), m_direction = ''higher'',
             m_weight = Fin (3602879701896397 / 2 ^ 55), included = True, reason = None,
             normalized_delta = Some (Fin (1 / 2)),
             weighted_score_contrib = Some (Fin (15 / 2))\<rparr>),
          (''b'', \<lparr>rootless_value = Some (Fin 5), rootful_value = Some (Fin 3), m_direction = ''higher'',
             m_weight = Fin (3602879701896397 / 2 ^ 54), included = True, reason = None,
             normalized_delta = Some (Fin (1 / 2)),
             weighted_score_contrib = Some (Fin (15))\<rparr>),
          (''c'', \<lparr>rootless_value = Some (Fin 5), rootful_value = Some (Fin 3), m_direction = ''higher'',
             m_weight = Fin (5404319552844595 / 2 ^ 54), included = True, reason = None,
             normalized_delta = Some (Fin (1 / 2)),
             weighted_score_contrib = Some (Fin (45 / 2))\<rparr>)],
        total_weight = Fin (1351079888211149 / 2 ^ 51), weighted_sum = Fin (45)\<rparr>"
  using ev_c_10 ev_c_11 ev_c_12 ev_c_13 ev_c_14 ev_c_15 ev_c_16 order_outcomes
  by (simp add: order_metrics_def metric_step_outcome)

lemma order_loop_rev:
  "metrics_loop order_prom ''rl'' ''rf'' (rev order_metrics)
     \<lparr>rep_metrics = [], total_weight = Fin 0, weighted_sum = Fin 0\<rparr> =
   Inr \<lparr>rep_metrics =
         [(''c'', \<lparr>rootless_value = Some (Fin 5), rootful_value = Some (Fin 3), m_direction = ''higher'',
             m_weight = Fin (5404319552844595 / 2 ^ 54), included = True, reason = None,
             normalized_delta = Some (Fin (1 / 2)),
             weighted_score_contrib = Some (Fin (45 / 2))\<rparr>),
          (''b'', \<lparr>rootless_value = Some (Fin 5), rootful_value = Some (Fin 3), m_direction = ''higher'',
             m_weight = Fin (3602879701896397 / 2 ^ 54), included = True, reason = None,
             normalized_delta = Some (Fin (1 / 2)),
             weighted_score_contrib = Some (Fin (15))\<rparr>),
          (''a'', \<lparr>rootless_value = Some (Fin 5), rootful_value = Some (Fin 3), m_direction = ''higher'',
             m_weight = Fin (3602879701896397 / 2 ^ 55), included = True, reason = None,
             normalized_delta = Some (Fin (1 / 2)),
             weighted_score_contrib = Some (Fin (15 / 2))\<rparr>)],
        total_weight = Fin (5404319552844595 / 2 ^ 53), weighted_sum = Fin (45)\<rparr>"
  using ev_c_17 ev_c_18 ev_c_19 ev_c_20 ev_c_21 ev_c_22 ev_c_23 order_outcomes
  by (simp add: order_metrics_def metric_step_outcome)

lemma order_repetition:
  "repetition order_prom ''rl'' ''rf'' order_metrics (threshold_set 75 60 40 25) 0 now =
   Inr \<lparr>rep = 1, timestamp = now,
        metrics =
         [(''a'', \<lparr>rootless_value = Some (Fin 5), rootful_value = Some (Fin 3), m_direction = ''higher'',
             m_weight = Fin (3602879701896397 / 2 ^ 55), included = True, reason = None,
             normalized_delta = Some (Fin (1 / 2)),
             weighted_score_contrib = Some (Fin (15 / 2))\<rparr>),
          (''b'', \<lparr>rootless_value = Some (Fin 5), rootful_value = Some (Fin 3), m_direction = ''higher'',
             m_weight = Fin (3602879701896397 / 2 ^ 54), included = True, reason = None,
             normalized_delta = Some (Fin (1 / 2)),
             weighted_score_contrib = Some (Fin (15))\<rparr>),
          (''c'', \<lparr>rootless_value = Some (Fin 5), rootful_value = Some (Fin 3), m_direction = ''higher'',
             m_weight = Fin (5404319552844595 / 2 ^ 54), included = True, reason = None,
             normalized_delta = Some (Fin (1 / 2)),
             weighted_score_contrib = Some (Fin (45 / 2))\<rparr>)],
        weighted_score = Fin (5277655813324799 / 2 ^ 46), verdict = ''mild prefer rootless'',
        effective_weight = Fin (1351079888211149 / 2 ^ 51)\<rparr>"
  using ev_c_10 ev_c_11 ev_c_12 ev_c_13 ev_c_14 ev_c_15 ev_c_16 order_loop
  by (simp add: repetition_def aggregate_score_def fgt_def classify_def
      verdict_of_chain [OF threshold_set_keys])

lemma order_repetition_rev:
  "repetition order_prom ''rl'' ''rf'' (rev order_metrics) (threshold_set 75 60 40 25) 0 now =
   Inr \<lparr>rep = 1, timestamp = now,
        metrics =
         [(''c'', \<lparr>rootless_value = Some (Fin 5), rootful_value = Some (Fin 3), m_direction = ''higher'',
             m_weight = Fin (5404319552844595 / 2 ^ 54), included = True, reason = None,
             normalized_delta = Some (Fin (1 / 2)),
             weighted_score_contrib = Some (Fin (45 / 2))\<rparr>),
          (''b'', \<lparr>rootless_value = Some (Fin 5), rootful_value = Some (Fin 3), m_direction = ''higher'',
             m_weight = Fin (3602879701896397 / 2 ^ 54), included = True, reason = None,
             normalized_delta = Some (Fin (1 / 2)),
             weighted_score_contrib = Some (Fin (15))\<rparr>),
          (''a'', \<lparr>rootless_value = Some (Fin 5), rootful_value = Some (Fin 3), m_direction = ''higher'',
             m_weight = Fin (3602879701896397 / 2 ^ 55), included = True, reason = None,
             normalized_delta = Some (Fin (1 / 2)),
             weighted_score_contrib = Some (Fin (15 / 2))\<rparr>)],
        weighted_score = Fin (75), verdict = ''strong prefer rootless'',
        effective_weight = Fin (5404319552844595 / 2 ^ 53)\<rparr>"
  using ev_c_17 ev_c_18 ev_c_19 ev_c_20 ev_c_21 ev_c_22 ev_c_23 order_loop_rev
  by (simp add: repetition_def aggregate_score_def fgt_def classify_def
      verdict_of_chain [OF threshold_set_keys])

subsection \<open>Missing series\<close>

text \<open>
  Claim C1. A metric for which one of the two queries reports \<^verbatim>\<open>ok = False\<close> is stored
  with \<^verbatim>\<open>included = False\<close>, the reason \<^verbatim>\<open>"missing series"\<close> and the raw values that were
  obtained; its step of the loop returns and leaves \<^verbatim>\<open>total_weight\<close> and \<^verbatim>\<open>weighted_sum\<close>
  as they were. So a repetition that returns has the score, the effective weight and the
  verdict of the repetition over the other metrics alone, which returns too; and the
  repetition returns whenever the one over the other metrics does. (A repetition can
  still end with the exception of another metric: a failed request, or the division of
  \<open>compute_score\<close>.) The names of the metrics are distinct, being the keys of a dictionary.
\<close>

theorem missing_series_excluded:
  assumes "distinct (map fst ms)"
  shows "(\<forall>r. repetition prom rl rf ms T i now = Inr r \<longrightarrow>
      (\<forall>(name, spec) \<in> set ms. \<forall>q rl_val rl_ok rf_val rf_ok.
          query spec = Some q \<and> fetch prom q rl = Inr (rl_val, rl_ok) \<and>
          fetch prom q rf = Inr (rf_val, rf_ok) \<and> \<not> (rl_ok \<and> rf_ok) \<longrightarrow>
            map_of (metrics r) name =
              Some \<lparr>rootless_value = rl_val, rootful_value = rf_val,
                    m_direction = direction_of spec, m_weight = weight_of spec,
                    included = False, reason = Some ''missing series'',
                    normalized_delta = None, weighted_score_contrib = None\<rparr> \<and>
            (\<forall>st. \<exists>st'. metric_step prom rl rf name spec st = Inr st' \<and>
               total_weight st' = total_weight st \<and> weighted_sum st' = weighted_sum st)) \<and>
      (\<exists>r'. repetition prom rl rf
               (filter (\<lambda>(name, spec). \<not> series_missing prom rl rf spec) ms) T i now = Inr r' \<and>
         weighted_score r = weighted_score r' \<and> effective_weight r = effective_weight r' \<and>
         verdict r = verdict r')) \<and>
    (\<forall>r'. repetition prom rl rf
             (filter (\<lambda>(name, spec). \<not> series_missing prom rl rf spec) ms) T i now = Inr r' \<longrightarrow>
       (\<exists>r. repetition prom rl rf ms T i now = Inr r))"
proof -
  define out where "out spec = projr (metric_outcome prom rl rf spec)" for spec
  let ?init = "\<lparr>rep_metrics = [], total_weight = Fin 0, weighted_sum = Fin 0\<rparr>"
  let ?g = "\<lambda>(name, spec). (name, fst (out spec))"
  let ?w = "\<lambda>t (name :: string, spec). case snd (out spec) of None \<Rightarrow> t | Some (w, c) \<Rightarrow> fadd t w"
  let ?s = "\<lambda>t (name :: string, spec). case snd (out spec) of None \<Rightarrow> t | Some (w, c) \<Rightarrow> fadd t c"
  let ?P = "\<lambda>(name :: string, spec). \<not> series_missing prom rl rf spec"
  let ?fs = "filter ?P ms"
  have d_f: "distinct (map fst ?fs)"
    using assms by (rule distinct_map_filter)
  have skip: "(\<forall>a. ?w a x = a) \<and> (\<forall>a. ?s a x = a)" if x: "x \<in> set ms" "\<not> ?P x"
    and outs: "\<forall>(name, spec) \<in> set ms. metric_outcome prom rl rf spec = Inr (out spec)" for x
  proof -
    obtain name spec where nx: "x = (name, spec)"
      by (cases x)
    from x(2) have "series_missing prom rl rf spec"
      by (simp add: nx)
    then obtain res where "metric_outcome prom rl rf spec = Inr (res, None)"
      using series_missing_outcome by blast
    with outs x(1) have "out spec = (res, None)"
      by (auto simp add: nx)
    then show ?thesis
      by (simp add: nx)
  qed
  have sums: "foldl ?w (Fin 0) ?fs = foldl ?w (Fin 0) ms \<and> foldl ?s (Fin 0) ?fs = foldl ?s (Fin 0) ms"
    if outs: "\<forall>(name, spec) \<in> set ms. metric_outcome prom rl rf spec = Inr (out spec)"
  proof
    show "foldl ?w (Fin 0) ?fs = foldl ?w (Fin 0) ms"
      by (rule foldl_filter_skip) (use skip outs in blast)
    show "foldl ?s (Fin 0) ?fs = foldl ?s (Fin 0) ms"
      by (rule foldl_filter_skip) (use skip outs in blast)
  qed
  have forward: "(\<forall>(name, spec) \<in> set ms. \<forall>q rl_val rl_ok rf_val rf_ok.
          query spec = Some q \<and> fetch prom q rl = Inr (rl_val, rl_ok) \<and>
          fetch prom q rf = Inr (rf_val, rf_ok) \<and> \<not> (rl_ok \<and> rf_ok) \<longrightarrow>
            map_of (metrics r) name =
              Some \<lparr>rootless_value = rl_val, rootful_value = rf_val,
                    m_direction = direction_of spec, m_weight = weight_of spec,
                    included = False, reason = Some ''missing series'',
                    normalized_delta = None, weighted_score_contrib = None\<rparr> \<and>
            (\<forall>st. \<exists>st'. metric_step prom rl rf name spec st = Inr st' \<and>
               total_weight st' = total_weight st \<and> weighted_sum st' = weighted_sum st)) \<and>
      (\<exists>r'. repetition prom rl rf ?fs T i now = Inr r' \<and>
         weighted_score r = weighted_score r' \<and> effective_weight r = effective_weight r' \<and>
         verdict r = verdict r')"
    if ret: "repetition prom rl rf ms T i now = Inr r" for r
  proof -
    from ret obtain st ws v where l: "metrics_loop prom rl rf ms ?init = Inr st"
      and agg: "aggregate_score (total_weight st) (weighted_sum st) = Inr ws"
      and v: "classify T ws = Inr v"
      and r: "r = \<lparr>rep = i + 1, timestamp = now, metrics = rep_metrics st,
            weighted_score = ws, verdict = v, effective_weight = total_weight st\<rparr>"
      unfolding repetition_Inr_iff by blast
    have outs: "\<forall>(name, spec) \<in> set ms. metric_outcome prom rl rf spec = Inr (out spec)"
      by (auto simp add: out_def dest!: metrics_loop_returns_outcomes [OF l])
    have st: "st = \<lparr>rep_metrics = map ?g ms,
         total_weight = foldl ?w (Fin 0) ms, weighted_sum = foldl ?s (Fin 0) ms\<rparr>"
      using metrics_loop_from_empty [OF outs assms] l by simp
    have comp: "fst \<circ> ?g = fst"
      by (simp add: fun_eq_iff)
    have per_metric: "map_of (metrics r) name =
              Some \<lparr>rootless_value = rl_val, rootful_value = rf_val,
                    m_direction = direction_of spec, m_weight = weight_of spec,
                    included = False, reason = Some ''missing series'',
                    normalized_delta = None, weighted_score_contrib = None\<rparr> \<and>
            (\<forall>st. \<exists>st'. metric_step prom rl rf name spec st = Inr st' \<and>
               total_weight st' = total_weight st \<and> weighted_sum st' = weighted_sum st)"
      if mem: "(name, spec) \<in> set ms" and q: "query spec = Some q"
        and f: "fetch prom q rl = Inr (rl_val, rl_ok)" "fetch prom q rf = Inr (rf_val, rf_ok)"
        and miss: "\<not> (rl_ok \<and> rf_ok)"
      for name spec q rl_val rl_ok rf_val rf_ok
    proof
      note o = metric_outcome_missing [OF q f miss]
      from outs mem o have os: "fst (out spec) =
          \<lparr>rootless_value = rl_val, rootful_value = rf_val,
            m_direction = direction_of spec, m_weight = weight_of spec,
            included = False, reason = Some ''missing series'',
            normalized_delta = None, weighted_score_contrib = None\<rparr>"
        by auto
      have "(name, fst (out spec)) \<in> set (map ?g ms)"
        using mem by force
      moreover have "distinct (map fst (map ?g ms))"
        using assms by (simp add: comp)
      ultimately have "map_of (map ?g ms) name = Some (fst (out spec))"
        by (rule map_of_is_SomeI [rotated])
      then show "map_of (metrics r) name =
              Some \<lparr>rootless_value = rl_val, rootful_value = rf_val,
                    m_direction = direction_of spec, m_weight = weight_of spec,
                    included = False, reason = Some ''missing series'',
                    normalized_delta = None, weighted_score_contrib = None\<rparr>"
        by (simp add: r st os)
      show "\<forall>st. \<exists>st'. metric_step prom rl rf name spec st = Inr st' \<and>
               total_weight st' = total_weight st \<and> weighted_sum st' = weighted_sum st"
        by (simp add: metric_step_outcome o)
    qed
    have outs_f: "\<forall>(name, spec) \<in> set ?fs. metric_outcome prom rl rf spec = Inr (out spec)"
      using outs by auto
    define st' where "st' = \<lparr>rep_metrics = map ?g ?fs,
         total_weight = foldl ?w (Fin 0) ?fs, weighted_sum = foldl ?s (Fin 0) ?fs\<rparr>"
    have l': "metrics_loop prom rl rf ?fs ?init = Inr st'"
      using metrics_loop_from_empty [OF outs_f d_f] by (simp add: st'_def)
    have tw: "total_weight st' = total_weight st" and ws: "weighted_sum st' = weighted_sum st"
      using sums [OF outs] by (simp_all add: st'_def st)
    define r' where "r' = \<lparr>rep = i + 1, timestamp = now, metrics = rep_metrics st',
            weighted_score = ws, verdict = v, effective_weight = total_weight st'\<rparr>"
    have ret': "repetition prom rl rf ?fs T i now = Inr r'"
      unfolding repetition_Inr_iff r'_def using l' agg v tw ws by auto
    have same: "weighted_score r = weighted_score r'" "effective_weight r = effective_weight r'"
      "verdict r = verdict r'"
      by (simp_all add: r r'_def tw)
    from per_metric ret' same show ?thesis
      by blast
  qed
  have backward: "\<exists>r. repetition prom rl rf ms T i now = Inr r"
    if ret': "repetition prom rl rf ?fs T i now = Inr r'" for r'
  proof -
    from ret' obtain st' ws v where l': "metrics_loop prom rl rf ?fs ?init = Inr st'"
      and agg: "aggregate_score (total_weight st') (weighted_sum st') = Inr ws"
      and v: "classify T ws = Inr v"
      unfolding repetition_Inr_iff by blast
    have outs: "\<forall>(name, spec) \<in> set ms. metric_outcome prom rl rf spec = Inr (out spec)"
    proof (clarify)
      fix name spec
      assume mem: "(name, spec) \<in> set ms"
      show "metric_outcome prom rl rf spec = Inr (out spec)"
      proof (cases "series_missing prom rl rf spec")
        case True
        then show ?thesis
          using series_missing_outcome [OF True] by (auto simp add: out_def)
      next
        case False
        with mem have "(name, spec) \<in> set ?fs"
          by simp
        from metrics_loop_returns_outcomes [OF l' this] show ?thesis
          by (auto simp add: out_def)
      qed
    qed
    have outs_f: "\<forall>(name, spec) \<in> set ?fs. metric_outcome prom rl rf spec = Inr (out spec)"
      using outs by auto
    have st': "st' = \<lparr>rep_metrics = map ?g ?fs,
         total_weight = foldl ?w (Fin 0) ?fs, weighted_sum = foldl ?s (Fin 0) ?fs\<rparr>"
      using metrics_loop_from_empty [OF outs_f d_f] l' by simp
    define st where "st = \<lparr>rep_metrics = map ?g ms,
         total_weight = foldl ?w (Fin 0) ms, weighted_sum = foldl ?s (Fin 0) ms\<rparr>"
    have l: "metrics_loop prom rl rf ms ?init = Inr st"
      using metrics_loop_from_empty [OF outs assms] by (simp add: st_def)
    have "total_weight st = total_weight st'" "weighted_sum st = weighted_sum st'"
      using sums [OF outs] by (simp_all add: st' st_def)
    with agg have "aggregate_score (total_weight st) (weighted_sum st) = Inr ws"
      by simp
    with l v show ?thesis
      unfolding repetition_Inr_iff by blast
  qed
  from forward backward show ?thesis
    by blast
qed

text \<open>
  The sample metrics: \<^verbatim>\<open>mem\<close> has no rootful series and is stored as excluded with its
  rootless value 100; the score is \<^verbatim>\<open>83.33333333333333\<close>, that of \<^verbatim>\<open>cpu\<close> alone, with the
  effective weight 2.
\<close>

theorem missing_series_excluded_witness:
  \<open>distinct (map fst example_metrics) \<and>
   series_missing example_prom ''rl'' ''rf''
     \<lparr>query = Some ''mem{job="x"}'', weight = Some (Fin 1), direction = Some ''higher''\<rparr> \<and>
   (\<exists>r r'.
      repetition example_prom ''rl'' ''rf'' example_metrics (threshold_set 75 60 40 25) 0 0 = Inr r \<and>
      map_of (metrics r) ''mem'' =
        Some \<lparr>rootless_value = Some (Fin 100), rootful_value = None, m_direction = ''higher'',
              m_weight = Fin 1, included = False, reason = Some ''missing series'',
              normalized_delta = None, weighted_score_contrib = None\<rparr> \<and>
      repetition example_prom ''rl'' ''rf''
        (filter (\<lambda>(name, spec). \<not> series_missing example_prom ''rl'' ''rf'' spec) example_metrics)
        (threshold_set 75 60 40 25) 0 0 = Inr r' \<and>
      weighted_score r = Fin (5864062014805333 / 2 ^ 46) \<and> weighted_score r' = Fin (5864062014805333 / 2 ^ 46) \<and>
      effective_weight r = Fin 2 \<and> effective_weight r' = Fin 2 \<and>
      verdict r = ''strong prefer rootless'' \<and> verdict r' = ''strong prefer rootless'')\<close>
proof -
  have d: "distinct (map fst example_metrics)"
    by (simp add: example_metrics_def)
  have sm: \<open>series_missing example_prom ''rl'' ''rf''
     \<lparr>query = Some ''mem{job="x"}'', weight = Some (Fin 1), direction = Some ''higher''\<rparr>\<close>
    by (simp add: series_missing_def example_fetch)
  note rep = example_repetition [of 0]
  note th = missing_series_excluded [OF d, where prom = example_prom and rl = "''rl''"
      and rf = "''rf''" and T = "threshold_set 75 60 40 25" and i = 0 and now = 0]
  from th [THEN conjunct1, THEN spec, THEN mp, OF rep, THEN conjunct2]
  obtain r' where r': "repetition example_prom ''rl'' ''rf''
        (filter (\<lambda>(name, spec). \<not> series_missing example_prom ''rl'' ''rf'' spec) example_metrics)
        (threshold_set 75 60 40 25) 0 0 = Inr r'"
    and eq: "weighted_score r' = Fin (5864062014805333 / 2 ^ 46)" "effective_weight r' = Fin 2"
      "verdict r' = ''strong prefer rootless''"
    by auto
  show ?thesis
    using d sm r' eq unfolding rep by simp
qed

subsection \<open>The weighted score\<close>

text \<open>
  Claim C2 as stated fails: with the one metric of weight \<^verbatim>\<open>0.7111917696952796\<close>, which
  scores 100, the contribution is \<^verbatim>\<open>71.11917696952797\<close> and the quotient by the weight is
  \<^verbatim>\<open>100.00000000000001\<close>, above 100.
\<close>

theorem weighted_score_exceeds_100:
  "is_double (3202922988988625 / 2 ^ 52) \<and>
   map (weight_of \<circ> snd) rounding_metrics = [Fin (3202922988988625 / 2 ^ 52)] \<and>
   fge (Fin (3202922988988625 / 2 ^ 52)) (Fin 0) \<and>
   (\<exists>r. repetition rounding_prom ''rl'' ''rf'' rounding_metrics (threshold_set 75 60 40 25) 0 0 = Inr r \<and>
      weighted_score r = Fin (7036874417766401 / 2 ^ 46) \<and>
      fgt (weighted_score r) (Fin 100) \<and> \<not> fle (weighted_score r) (Fin 100))"
proof -
  have "is_double (3202922988988625 / 2 ^ 52)"
    using ev_b_8 by (simp add: is_double_def)
  then show ?thesis
    unfolding rounding_repetition
    by (simp add: rounding_metrics_def weight_of_def fgt_def fle_def fge_def)
qed

text \<open>
  Claim C2, amended. The weighted score of a repetition is the float quotient of
  \<^verbatim>\<open>weighted_sum\<close> by \<^verbatim>\<open>total_weight\<close> when \<^verbatim>\<open>total_weight > 0\<close>, and \<^verbatim>\<open>50.0\<close> otherwise;
  the effective weight is \<^verbatim>\<open>total_weight\<close>. When every weight is a finite float that is
  not negative and the total weight is finite, the weighted score is not below 0 (the
  quotient is rounded, and can be above 100).
\<close>

theorem weighted_score_quotient:
  assumes "metrics_loop prom rl rf ms \<lparr>rep_metrics = [], total_weight = Fin 0, weighted_sum = Fin 0\<rparr>
      = Inr st"
    and "repetition prom rl rf ms T i now = Inr r"
  shows "effective_weight r = total_weight st \<and>
    (fgt (total_weight st) (Fin 0) \<longrightarrow>
       fdiv (weighted_sum st) (total_weight st) = Inr (weighted_score r)) \<and>
    (\<not> fgt (total_weight st) (Fin 0) \<longrightarrow> weighted_score r = Fin 50) \<and>
    ((\<forall>(name, spec) \<in> set ms. \<exists>y. 0 \<le> y \<and> weight_of spec = Fin y) \<and>
     (\<exists>t. total_weight st = Fin t) \<longrightarrow> fge (weighted_score r) (Fin 0))"
proof -
  from assms have r: "effective_weight r = total_weight st"
    "aggregate_score (total_weight st) (weighted_sum st) = Inr (weighted_score r)"
    by (auto simp add: repetition_Inr_iff)
  have "fge (weighted_score r) (Fin 0)"
    if w: "\<forall>(name, spec) \<in> set ms. \<exists>y. 0 \<le> y \<and> weight_of spec = Fin y"
      and t: "total_weight st = Fin t" for t
  proof -
    have "fge (weighted_sum st) (Fin 0)"
      using metrics_loop_invariant [OF assms(1) w] by (simp add: fge_zero_iff)
    then consider "weighted_sum st = PInf" | a where "0 \<le> a" "weighted_sum st = Fin a"
      by (auto simp add: fge_zero_iff)
    then show ?thesis
    proof cases
      case 1
      show ?thesis
      proof (cases "0 < t")
        case True
        then have "weighted_score r = PInf"
          using r(2) 1 by (simp add: aggregate_score_def t fgt_def)
        then show ?thesis
          by (simp add: fge_zero_iff)
      next
        case False
        then have "weighted_score r = Fin 50"
          using r(2) by (simp add: aggregate_score_def t fgt_def)
        then show ?thesis
          by (simp add: fge_zero_iff)
      qed
    next
      case 2
      show ?thesis
      proof (cases "0 < t")
        case True
        then have "0 \<le> a / t"
          using 2(1) by simp
        then have "fge (fround (a / t)) (Fin 0)"
          by (rule fround_nonneg_fge)
        moreover have "weighted_score r = fround (a / t)"
          using r(2) True by (simp add: aggregate_score_def t 2(2) fgt_def)
        ultimately show ?thesis
          by simp
      next
        case False
        then have "weighted_score r = Fin 50"
          using r(2) by (simp add: aggregate_score_def t fgt_def)
        then show ?thesis
          by (simp add: fge_zero_iff)
      qed
    qed
  qed
  with r show ?thesis
    by (auto simp add: aggregate_score_def)
qed

text \<open>
  The sample metrics, and the metric \<^verbatim>\<open>mem\<close> alone, for which nothing is scored.
\<close>

theorem weighted_score_quotient_witness:
  "(\<exists>st r. metrics_loop example_prom ''rl'' ''rf'' example_metrics
        \<lparr>rep_metrics = [], total_weight = Fin 0, weighted_sum = Fin 0\<rparr> = Inr st \<and>
      repetition example_prom ''rl'' ''rf'' example_metrics (threshold_set 75 60 40 25) 0 0 = Inr r \<and>
      fgt (total_weight st) (Fin 0) \<and>
      fdiv (weighted_sum st) (total_weight st) = Inr (weighted_score r) \<and>
      effective_weight r = total_weight st \<and>
      weighted_score r = Fin (5864062014805333 / 2 ^ 46) \<and> fge (weighted_score r) (Fin 0)) \<and>
   (\<exists>st r. metrics_loop example_prom ''rl'' ''rf'' (tl example_metrics)
        \<lparr>rep_metrics = [], total_weight = Fin 0, weighted_sum = Fin 0\<rparr> = Inr st \<and>
      repetition example_prom ''rl'' ''rf'' (tl example_metrics) (threshold_set 75 60 40 25) 0 0 = Inr r \<and>
      \<not> fgt (total_weight st) (Fin 0) \<and> effective_weight r = total_weight st \<and>
      weighted_score r = Fin 50)"
proof -
  note a = weighted_score_quotient [OF example_loop example_repetition [of 0]]
  note b = weighted_score_quotient [OF example_loop_tl example_repetition_tl [of 0]]
  have w: "\<forall>(name, spec) \<in> set example_metrics. \<exists>y. 0 \<le> y \<and> weight_of spec = Fin y"
    by (simp add: example_metrics_def weight_of_def)
  have pos: "fgt (Fin 2) (Fin 0)" and zero: "\<not> fgt (Fin 0) (Fin 0)"
    by (simp_all add: fgt_def)
  from a w pos
  have 1: "fdiv (Fin (5864062014805333 / 2 ^ 45)) (Fin 2) = Inr (Fin (5864062014805333 / 2 ^ 46))"
    and 2: "fge (Fin (5864062014805333 / 2 ^ 46)) (Fin 0)"
    by simp_all
  show ?thesis
    unfolding example_loop example_loop_tl example_repetition example_repetition_tl
    using 1 2 pos zero b by simp
qed

subsection \<open>The order of the specs\<close>

text \<open>
  Claim C9 as stated fails: the two sums are float sums in the order of the specs. With
  the weights \<^verbatim>\<open>0.1\<close>, \<^verbatim>\<open>0.2\<close>, \<^verbatim>\<open>0.3\<close> and each metric scoring 75, the order a, b, c
  has the effective weight \<^verbatim>\<open>0.6000000000000001\<close>, the score \<^verbatim>\<open>74.99999999999999\<close> and the
  verdict "mild prefer rootless"; the order c, b, a has \<^verbatim>\<open>0.6\<close>, \<^verbatim>\<open>75.0\<close> and "strong
  prefer rootless".
\<close>

theorem order_of_specs_changes_verdict:
  "mset (rev order_metrics) = mset order_metrics \<and>
   distinct (map fst order_metrics) \<and>
   map (weight_of \<circ> snd) order_metrics =
     [Fin (3602879701896397 / 2 ^ 55), Fin (3602879701896397 / 2 ^ 54), Fin (5404319552844595 / 2 ^ 54)] \<and>
   is_double (3602879701896397 / 2 ^ 55) \<and> is_double (3602879701896397 / 2 ^ 54) \<and>
   is_double (5404319552844595 / 2 ^ 54) \<and>
   (\<exists>r r'. repetition order_prom ''rl'' ''rf'' order_metrics (threshold_set 75 60 40 25) 0 0 = Inr r \<and>
      repetition order_prom ''rl'' ''rf'' (rev order_metrics) (threshold_set 75 60 40 25) 0 0 = Inr r' \<and>
      weighted_score r = Fin (5277655813324799 / 2 ^ 46) \<and> weighted_score r' = Fin 75 \<and>
      \<not> feq (weighted_score r) (weighted_score r') \<and>
      effective_weight r = Fin (1351079888211149 / 2 ^ 51) \<and>
      effective_weight r' = Fin (5404319552844595 / 2 ^ 53) \<and>
      \<not> feq (effective_weight r) (effective_weight r') \<and>
      verdict r = ''mild prefer rootless'' \<and> verdict r' = ''strong prefer rootless'')"
  unfolding order_repetition order_repetition_rev
  using ev_c_10 ev_c_24 ev_c_17
  by (simp add: order_metrics_def weight_of_def is_double_def)

text \<open>
  Claim C9, amended. For metrics with distinct names and the four thresholds present,
  when a repetition returns, the repetition over any permutation of the specs returns
  too, and its per-metric results are the same, reported in another order. (The
  weighted score, the effective weight and the verdict can differ, as above.)
\<close>

theorem order_of_specs_results:
  assumes "mset ms = mset ms'" and "distinct (map fst ms)"
    and "T ''strong_rootless'' = Some srl" and "T ''mild_rootless'' = Some mrl"
    and "T ''strong_rootful'' = Some srf" and "T ''mild_rootful'' = Some mrf"
    and "repetition prom rl rf ms T i now = Inr r"
  shows "\<exists>r'. repetition prom rl rf ms' T i now = Inr r' \<and>
    mset (metrics r') = mset (metrics r) \<and> map_of (metrics r') = map_of (metrics r)"
proof -
  define out where "out spec = projr (metric_outcome prom rl rf spec)" for spec
  let ?init = "\<lparr>rep_metrics = [], total_weight = Fin 0, weighted_sum = Fin 0\<rparr>"
  let ?g = "\<lambda>(name, spec). (name, fst (out spec))"
  from assms(7) obtain st where st: "metrics_loop prom rl rf ms ?init = Inr st"
    and r: "metrics r = rep_metrics st"
    unfolding repetition_Inr_iff by auto
  have outs: "\<forall>(name, spec) \<in> set ms. metric_outcome prom rl rf spec = Inr (out spec)"
    by (auto simp add: out_def dest!: metrics_loop_returns_outcomes [OF st])
  have set_eq: "set ms' = set ms"
    using assms(1) by (metis mset_eq_setD)
  have outs': "\<forall>(name, spec) \<in> set ms'. metric_outcome prom rl rf spec = Inr (out spec)"
    using outs set_eq by simp
  have "mset (map fst ms') = mset (map fst ms)"
    using assms(1) by simp
  then have d': "distinct (map fst ms')"
    using assms(2) by (metis mset_eq_imp_distinct_iff)
  from metrics_loop_from_empty [OF outs assms(2)] st
  have m: "rep_metrics st = map ?g ms"
    by auto
  from metrics_loop_from_empty [OF outs' d']
  obtain st' where l': "metrics_loop prom rl rf ms' ?init = Inr st'"
    and m': "rep_metrics st' = map ?g ms'"
    by auto
  obtain ws where agg: "aggregate_score (total_weight st') (weighted_sum st') = Inr ws"
    using aggregate_score_returns by blast
  obtain v where v: "classify T ws = Inr v"
    using classify_returns [OF assms(3-6)] by blast
  define r' where "r' = \<lparr>rep = i + 1, timestamp = now, metrics = rep_metrics st',
            weighted_score = ws, verdict = v, effective_weight = total_weight st'\<rparr>"
  have ret': "repetition prom rl rf ms' T i now = Inr r'"
    unfolding repetition_Inr_iff r'_def using l' agg v by blast
  have ms_eq: "mset (rep_metrics st') = mset (rep_metrics st)"
    unfolding m m' by (simp only: mset_map assms(1))
  have comp: "fst \<circ> ?g = fst"
    by (simp add: fun_eq_iff)
  have dk: "distinct (map fst (rep_metrics st'))" "distinct (map fst (rep_metrics st))"
    using assms(2) d' by (simp_all add: m m' comp)
  have "set (rep_metrics st') = set (rep_metrics st)"
    using ms_eq by (metis mset_eq_setD)
  then have mo: "map_of (rep_metrics st') = map_of (rep_metrics st)"
    by (simp add: map_of_inject_set [OF dk])
  from ret' ms_eq mo show ?thesis
    by (intro exI [of _ r']) (simp add: r'_def r)
qed

text \<open>
  The sample metrics and their reversal.
\<close>

theorem order_of_specs_results_witness:
  "mset example_metrics = mset (rev example_metrics) \<and>
   distinct (map fst example_metrics) \<and>
   (\<exists>r r'. repetition example_prom ''rl'' ''rf'' example_metrics (threshold_set 75 60 40 25) 0 0 = Inr r \<and>
      repetition example_prom ''rl'' ''rf'' (rev example_metrics) (threshold_set 75 60 40 25) 0 0 = Inr r' \<and>
      mset (metrics r') = mset (metrics r) \<and> map_of (metrics r') = map_of (metrics r) \<and>
      metrics r' \<noteq> metrics r)"
proof -
  have d: "distinct (map fst example_metrics)"
    by (simp add: example_metrics_def)
  have m: "mset example_metrics = mset (rev example_metrics)"
    by simp
  note rep = example_repetition [of 0]
  from order_of_specs_results [OF m d threshold_set_keys rep]
  obtain r' where r': "repetition example_prom ''rl'' ''rf'' (rev example_metrics) (threshold_set 75 60 40 25) 0 0 = Inr r'"
    and eq: "mset (metrics r') = mset (metrics \<lparr>rep = 1, timestamp = 0, metrics = [(''cpu'', \<lparr>rootless_value = Some (Fin 10), rootful_value = Some (Fin 20), m_direction = ''lower'',
             m_weight = Fin (2), included = True, reason = None,
             normalized_delta = Some (Fin (6004799503160661 / 2 ^ 53)),
             weighted_score_contrib = Some (Fin (5864062014805333 / 2 ^ 45))\<rparr>),
          (''mem'', \<lparr>rootless_value = Some (Fin 100), rootful_value = None, m_direction = ''higher'',
             m_weight = Fin 1, included = False, reason = Some ''missing series'',
             normalized_delta = None, weighted_score_contrib = None\<rparr>)],
        weighted_score = Fin (5864062014805333 / 2 ^ 46), verdict = ''strong prefer rootless'',
        effective_weight = Fin 2\<rparr>)"
      "map_of (metrics r') = map_of (metrics \<lparr>rep = 1, timestamp = 0, metrics = [(''cpu'', \<lparr>rootless_value = Some (Fin 10), rootful_value = Some (Fin 20), m_direction = ''lower'',
             m_weight = Fin (2), included = True, reason = None,
             normalized_delta = Some (Fin (6004799503160661 / 2 ^ 53)),
             weighted_score_contrib = Some (Fin (5864062014805333 / 2 ^ 45))\<rparr>),
          (''mem'', \<lparr>rootless_value = Some (Fin 100), rootful_value = None, m_direction = ''higher'',
             m_weight = Fin 1, included = False, reason = Some ''missing series'',
             normalized_delta = None, weighted_score_contrib = None\<rparr>)],
        weighted_score = Fin (5864062014805333 / 2 ^ 46), verdict = ''strong prefer rootless'',
        effective_weight = Fin 2\<rparr>)"
    by blast
  have ne: "metrics r' \<noteq> [(''cpu'', \<lparr>rootless_value = Some (Fin 10), rootful_value = Some (Fin 20), m_direction = ''lower'',
             m_weight = Fin (2), included = True, reason = None,
             normalized_delta = Some (Fin (6004799503160661 / 2 ^ 53)),
             weighted_score_contrib = Some (Fin (5864062014805333 / 2 ^ 45))\<rparr>),
          (''mem'', \<lparr>rootless_value = Some (Fin 100), rootful_value = None, m_direction = ''higher'',
             m_weight = Fin 1, included = False, reason = Some ''missing series'',
             normalized_delta = None, weighted_score_contrib = None\<rparr>)]"
    using r' unfolding example_repetition_rev by auto
  show ?thesis
    using d r' eq ne unfolding rep by simp
qed

section \<open>Properties of the summary\<close>


























end
